theory Spec2Isabelle
  imports Main
begin

section \<open>Status codes and the external layers\<close>

text \<open>
  The status taxonomy of the engine (error.h). \<open>OK\<close> is the zero value, so the
  source's \<open>if (status)\<close> reads \<open>status \<noteq> OK\<close>.
\<close>

datatype Status =
    OK | FILEEXISTS | FILEEOF | BUFFEREXCEEDED | PAGENOTPINNED | PAGEPINNED
  | HASHNOTFOUND | HASHTBLERROR | UNIXERR | BADPAGENO | BADRID | BADSCANPARM
  | BADSCANID | BADBUFFER | INVALIDRECLEN | NOSPACE | ENDOFPAGE | NORECORDS
  | BADFILE | INSUFMEM | ATTRTYPEMISMATCH | ATTRNOTFOUND | ATTRTOOLONG | BADCATPARM

text \<open>
  A \<open>File*\<close> is a handle or \<open>NULL\<close> (\<open>None\<close>). A \<open>Page*\<close> handed out by the
  buffer pool points at a frame of \<open>bufPool\<close>, so it is the frame's index.
\<close>

type_synonym fileid = nat
type_synonym filep = "fileid option"

text \<open>
  The DB/File layer is not part of the buffer manager: its calls are parameters.
  \<open>'db\<close> is the state of that layer (the disk and the open-file table), \<open>'p\<close> the
  contents of one page. Each call returns its status and the layer's new state.
\<close>

record ('db, 'p) Provider =
  f_readPage :: "'db \<Rightarrow> fileid \<Rightarrow> int \<Rightarrow> Status \<times> 'p \<times> 'db"
  f_writePage :: "'db \<Rightarrow> fileid \<Rightarrow> int \<Rightarrow> 'p \<Rightarrow> Status \<times> 'db"
  f_allocatePage :: "'db \<Rightarrow> fileid \<Rightarrow> Status \<times> int \<times> 'db"
  f_disposePage :: "'db \<Rightarrow> fileid \<Rightarrow> int \<Rightarrow> Status \<times> 'db"
  f_getFirstPage :: "'db \<Rightarrow> fileid \<Rightarrow> Status \<times> int"
  db_openFile :: "'db \<Rightarrow> string \<Rightarrow> Status \<times> filep \<times> 'db"
  db_createFile :: "'db \<Rightarrow> string \<Rightarrow> Status \<times> 'db"
  db_closeFile :: "'db \<Rightarrow> filep \<Rightarrow> Status \<times> 'db"
  db_destroyFile :: "'db \<Rightarrow> string \<Rightarrow> Status \<times> 'db"

section \<open>Buffer pool manager (buf.C)\<close>

text \<open>The descriptor's \<open>file\<close> field is \<open>dfile\<close> here.\<close>

record BufDesc =
  dfile :: filep
  pageNo :: int
  frameNo :: int
  pinCnt :: int
  dirty :: bool
  refbit :: bool
  valid :: bool

text \<open>
  Modelled from the spec: \<open>BufDesc::Clear\<close> and \<open>BufDesc::Set\<close> are declared in buf.h,
  which is not among the sources. The spec: "Reset the descriptor (valid=false, pinCnt=0,
  dirty=false, refbit=false)" and "Set the descriptor which establishes valid=true,
  pinCnt=1, refbit=true, dirty=false" for the identity (file, pageNo).
\<close>

definition Clear :: "BufDesc \<Rightarrow> BufDesc" where
  "Clear d = d\<lparr>pinCnt := 0, dirty := False, refbit := False, valid := False\<rparr>"

definition Set :: "filep \<Rightarrow> int \<Rightarrow> BufDesc \<Rightarrow> BufDesc" where
  "Set f p d = d\<lparr>dfile := f, pageNo := p, pinCnt := 1, dirty := False, refbit := True,
     valid := True\<rparr>"

text \<open>
  The pool: descriptors and frames are parallel arrays of \<open>numBufs\<close> entries, the hash
  table maps (file, pageNo) to a frame number, \<open>files\<close> is the state of the DB/File
  layer that the pool's calls act on.
\<close>

record ('db, 'p) BufMgr =
  numBufs :: nat
  bufTable :: "BufDesc list"
  bufPool :: "'p list"
  hashTable :: "filep \<times> int \<Rightarrow> nat option"
  clockHand :: nat
  files :: 'db

text \<open>
  Modelled from the spec: the buffer hash table (class \<open>BufHashTbl\<close>) is not among the
  sources. The spec: it "maps (file, page number) to frame index", "fails with
  HASHTBLERROR on duplicate insert", "HASHNOTFOUND on miss".
\<close>

definition ht_lookup :: "(filep \<times> int \<Rightarrow> nat option) \<Rightarrow> filep \<Rightarrow> int \<Rightarrow> Status \<times> nat" where
  "ht_lookup h f p = (case h (f, p) of None \<Rightarrow> (HASHNOTFOUND, 0) | Some i \<Rightarrow> (OK, i))"

definition ht_insert ::
  "(filep \<times> int \<Rightarrow> nat option) \<Rightarrow> filep \<Rightarrow> int \<Rightarrow> nat \<Rightarrow> Status \<times> (filep \<times> int \<Rightarrow> nat option)" where
  "ht_insert h f p i =
     (case h (f, p) of None \<Rightarrow> (OK, h((f, p) \<mapsto> i)) | Some _ \<Rightarrow> (HASHTBLERROR, h))"

definition ht_remove ::
  "(filep \<times> int \<Rightarrow> nat option) \<Rightarrow> filep \<Rightarrow> int \<Rightarrow> Status \<times> (filep \<times> int \<Rightarrow> nat option)" where
  "ht_remove h f p =
     (case h (f, p) of None \<Rightarrow> (HASHNOTFOUND, h) | Some _ \<Rightarrow> (OK, h((f, p) := None)))"

text \<open>
  Modelled from the spec: \<open>advanceClock\<close> is defined in buf.h. The spec: the clock is
  walked "circularly", the hand is a "rotating cursor over frames".
\<close>

definition advanceClock :: "('db, 'p) BufMgr \<Rightarrow> ('db, 'p) BufMgr" where
  "advanceClock s = s\<lparr>clockHand := (clockHand s + 1) mod numBufs s\<rparr>"

text \<open>
  The constructor: every descriptor zeroed, \<open>frameNo = i\<close>, invalid; frames zeroed
  (\<open>z\<close> is the all-zero page); the hand on the last frame. For \<open>bufs = 0\<close> the source's
  hand is \<open>-1\<close>; no frame is ever indexed then, and the model's hand is \<open>0\<close>.
\<close>

definition BufMgr_init :: "nat \<Rightarrow> 'p \<Rightarrow> 'db \<Rightarrow> ('db, 'p) BufMgr" where
  "BufMgr_init bufs z d =
     \<lparr>numBufs = bufs,
      bufTable = map (\<lambda>i. \<lparr>dfile = None, pageNo = 0, frameNo = int i, pinCnt = 0,
                           dirty = False, refbit = False, valid = False\<rparr>) [0..<bufs],
      bufPool = replicate bufs z,
      hashTable = (\<lambda>_. None),
      clockHand = bufs - 1,
      files = d\<rparr>"

text \<open>
  Results. An operation that indexes an array out of range or dereferences \<open>NULL\<close> has
  undefined behaviour in the source; the model returns \<open>None\<close> for it. Otherwise the
  result is the status, the out-parameters and the new state.
\<close>

datatype ('db, 'p) clock_step =
    Continue "('db, 'p) BufMgr"
  | Chosen Status "nat option" "('db, 'p) BufMgr"

text \<open>
  One iteration of the \<open>for\<close> loop of \<open>BufMgr::allocBuf\<close>, on the frame under the hand.
\<close>

definition allocBuf_step ::
  "('db, 'p) Provider \<Rightarrow> ('db, 'p) BufMgr \<Rightarrow> ('db, 'p) clock_step option" where
  "allocBuf_step P s =
     (let h = clockHand s in
      if \<not> h < length (bufTable s) then None
      else
        let tmpbuf = bufTable s ! h in
        if \<not> valid tmpbuf then Some (Chosen OK (Some h) (advanceClock s))
        else if refbit tmpbuf then
          Some (Continue (advanceClock (s\<lparr>bufTable := (bufTable s)[h := tmpbuf\<lparr>refbit := False\<rparr>]\<rparr>)))
        else if pinCnt tmpbuf = 0 then
          (let w = (if dirty tmpbuf then
                      (case dfile tmpbuf of
                         None \<Rightarrow> None
                       | Some f \<Rightarrow>
                           if \<not> h < length (bufPool s) then None
                           else Some (f_writePage P (files s) f (pageNo tmpbuf) (bufPool s ! h)))
                    else Some (OK, files s))
           in case w of
                None \<Rightarrow> None
              | Some (wst, d') \<Rightarrow>
                  if wst \<noteq> OK then Some (Chosen UNIXERR None (s\<lparr>files := d'\<rparr>))
                  else
                    (case ht_remove (hashTable s) (dfile tmpbuf) (pageNo tmpbuf) of
                       (rst, ht') \<Rightarrow>
                         if rst \<noteq> OK then Some (Chosen HASHTBLERROR None (s\<lparr>files := d'\<rparr>))
                         else Some (Chosen OK (Some h)
                                (s\<lparr>bufTable := (bufTable s)[h := Clear tmpbuf],
                                   hashTable := ht', files := d'\<rparr>))))
        else Some (Continue (advanceClock s)))"

text \<open>The loop runs the step at most \<open>n\<close> times; \<open>allocBuf\<close> gives it \<open>2 * numBufs\<close>.\<close>

fun allocBuf_loop ::
  "('db, 'p) Provider \<Rightarrow> nat \<Rightarrow> ('db, 'p) BufMgr \<Rightarrow> (Status \<times> nat option \<times> ('db, 'p) BufMgr) option" where
  "allocBuf_loop P 0 s = Some (BUFFEREXCEEDED, None, s)"
| "allocBuf_loop P (Suc n) s =
     (case allocBuf_step P s of
        None \<Rightarrow> None
      | Some (Continue s') \<Rightarrow> allocBuf_loop P n s'
      | Some (Chosen st fr s') \<Rightarrow> Some (st, fr, s'))"

definition allocBuf ::
  "('db, 'p) Provider \<Rightarrow> ('db, 'p) BufMgr \<Rightarrow> (Status \<times> nat option \<times> ('db, 'p) BufMgr) option" where
  "allocBuf P s = allocBuf_loop P (numBufs s * 2) s"

text \<open>
  \<open>BufMgr::readPage\<close>. The out-parameter \<open>page\<close> is returned as \<open>Some frame\<close> when it is
  assigned. After \<open>allocBuf\<close> only \<open>BUFFEREXCEEDED\<close> is checked: with any other error
  \<open>frameNo\<close> is still \<open>-1\<close> and the source goes on to index \<open>bufPool[-1]\<close>.
\<close>

definition readPage ::
  "('db, 'p) Provider \<Rightarrow> filep \<Rightarrow> int \<Rightarrow> ('db, 'p) BufMgr \<Rightarrow> (Status \<times> nat option \<times> ('db, 'p) BufMgr) option" where
  "readPage P f PageNo s =
     (case ht_lookup (hashTable s) f PageNo of
        (err, fno) \<Rightarrow>
          if err = HASHNOTFOUND then
            (case allocBuf P s of
               None \<Rightarrow> None
             | Some (err1, fr, s1) \<Rightarrow>
                 if err1 = BUFFEREXCEEDED then Some (err1, None, s1)
                 else
                   (case fr of
                      None \<Rightarrow> None
                    | Some frameNo1 \<Rightarrow>
                        (case f of
                           None \<Rightarrow> None
                         | Some fl \<Rightarrow>
                             if \<not> frameNo1 < length (bufPool s1) then None
                             else
                               (case f_readPage P (files s1) fl PageNo of
                                  (rst, pg, d') \<Rightarrow>
                                    let s2 = s1\<lparr>bufPool := (bufPool s1)[frameNo1 := pg], files := d'\<rparr> in
                                    if rst \<noteq> OK then Some (UNIXERR, None, s2)
                                    else
                                      (case ht_insert (hashTable s2) f PageNo frameNo1 of
                                         (ist, ht') \<Rightarrow>
                                           if ist \<noteq> OK then Some (HASHTBLERROR, None, s2)
                                           else if \<not> frameNo1 < length (bufTable s2) then None
                                           else Some (OK, Some frameNo1,
                                                  s2\<lparr>bufTable := (bufTable s2)
                                                       [frameNo1 := Set f PageNo (bufTable s2 ! frameNo1)],
                                                     hashTable := ht'\<rparr>))))))
          else if \<not> fno < length (bufTable s) then None
          else
            (let d = bufTable s ! fno in
             Some (OK, Some fno,
               s\<lparr>bufTable := (bufTable s)[fno := d\<lparr>pinCnt := pinCnt d + 1, refbit := True\<rparr>]\<rparr>)))"

definition unPinPage ::
  "filep \<Rightarrow> int \<Rightarrow> bool \<Rightarrow> ('db, 'p) BufMgr \<Rightarrow> (Status \<times> ('db, 'p) BufMgr) option" where
  "unPinPage f PageNo dty s =
     (case ht_lookup (hashTable s) f PageNo of
        (cache_status, fno) \<Rightarrow>
          if cache_status = HASHNOTFOUND then Some (HASHNOTFOUND, s)
          else if \<not> fno < length (bufTable s) then None
          else
            (let tmpbuf = bufTable s ! fno in
             if pinCnt tmpbuf = 0 then Some (PAGENOTPINNED, s)
             else Some (OK,
               s\<lparr>bufTable := (bufTable s)
                    [fno := tmpbuf\<lparr>pinCnt := pinCnt tmpbuf - 1, dirty := (dirty tmpbuf \<or> dty)\<rparr>]\<rparr>)))"

text \<open>
  \<open>BufMgr::allocPage\<close>. The result carries both out-parameters: the page number the
  file layer gave and the frame, when assigned.
\<close>

definition allocPage ::
  "('db, 'p) Provider \<Rightarrow> filep \<Rightarrow> ('db, 'p) BufMgr \<Rightarrow> (Status \<times> int \<times> nat option \<times> ('db, 'p) BufMgr) option" where
  "allocPage P f s =
     (case f of
        None \<Rightarrow> None
      | Some fl \<Rightarrow>
          (case f_allocatePage P (files s) fl of
             (err, pgNo, d') \<Rightarrow>
               if err \<noteq> OK then Some (err, pgNo, None, s\<lparr>files := d'\<rparr>)
               else
                 (case allocBuf P (s\<lparr>files := d'\<rparr>) of
                    None \<Rightarrow> None
                  | Some (err1, fr, s1) \<Rightarrow>
                      if err1 \<noteq> OK then Some (err1, pgNo, None, s1)
                      else
                        (case fr of
                           None \<Rightarrow> None
                         | Some frameNo1 \<Rightarrow>
                             (case ht_insert (hashTable s1) f pgNo frameNo1 of
                                (ist, ht') \<Rightarrow>
                                  if ist \<noteq> OK then Some (ist, pgNo, None, s1)
                                  else if \<not> frameNo1 < length (bufTable s1) then None
                                  else Some (OK, pgNo, Some frameNo1,
                                         s1\<lparr>bufTable := (bufTable s1)
                                              [frameNo1 := Set f pgNo (bufTable s1 ! frameNo1)],
                                            hashTable := ht'\<rparr>))))))"

definition disposePage ::
  "('db, 'p) Provider \<Rightarrow> filep \<Rightarrow> int \<Rightarrow> ('db, 'p) BufMgr \<Rightarrow> (Status \<times> ('db, 'p) BufMgr) option" where
  "disposePage P f pgNo s =
     (case ht_lookup (hashTable s) f pgNo of
        (status, fno) \<Rightarrow>
          if status = OK \<and> \<not> fno < length (bufTable s) then None
          else
            (let s1 = (if status = OK
                       then s\<lparr>bufTable := (bufTable s)[fno := Clear (bufTable s ! fno)]\<rparr>
                       else s);
                 s2 = s1\<lparr>hashTable := snd (ht_remove (hashTable s1) f pgNo)\<rparr>
             in case f of
                  None \<Rightarrow> None
                | Some fl \<Rightarrow>
                    (case f_disposePage P (files s2) fl pgNo of
                       (dst, d') \<Rightarrow> Some (dst, s2\<lparr>files := d'\<rparr>))))"

text \<open>
  \<open>BufMgr::flushFile\<close>: the body of the loop at frame \<open>i\<close>, then the loop over the frames
  in index order. \<open>Return\<close> leaves the loop with a status.
\<close>

datatype ('db, 'p) flush_step =
    Next "('db, 'p) BufMgr"
  | Return Status "('db, 'p) BufMgr"

definition flushFile_step ::
  "('db, 'p) Provider \<Rightarrow> filep \<Rightarrow> nat \<Rightarrow> ('db, 'p) BufMgr \<Rightarrow> ('db, 'p) flush_step option" where
  "flushFile_step P f i s =
     (if \<not> i < length (bufTable s) then None
      else
        let tmpbuf = bufTable s ! i in
        if valid tmpbuf \<and> dfile tmpbuf = f then
          (if pinCnt tmpbuf > 0 then Some (Return PAGEPINNED s)
           else
             (let w = (if dirty tmpbuf then
                         (case dfile tmpbuf of
                            None \<Rightarrow> None
                          | Some fl \<Rightarrow>
                              if \<not> i < length (bufPool s) then None
                              else Some (f_writePage P (files s) fl (pageNo tmpbuf) (bufPool s ! i)))
                       else Some (OK, files s))
              in case w of
                   None \<Rightarrow> None
                 | Some (status, d') \<Rightarrow>
                     if status \<noteq> OK then Some (Return status (s\<lparr>files := d'\<rparr>))
                     else Some (Next
                       (s\<lparr>bufTable := (bufTable s)
                            [i := tmpbuf\<lparr>dfile := None, pageNo := -1, dirty := False,
                                         valid := False\<rparr>],
                          hashTable := snd (ht_remove (hashTable s) f (pageNo tmpbuf)),
                          files := d'\<rparr>))))
        else if \<not> valid tmpbuf \<and> dfile tmpbuf = f then Some (Return BADBUFFER s)
        else Some (Next s))"

fun flushFile_loop ::
  "('db, 'p) Provider \<Rightarrow> filep \<Rightarrow> nat list \<Rightarrow> ('db, 'p) BufMgr \<Rightarrow> (Status \<times> ('db, 'p) BufMgr) option" where
  "flushFile_loop P f [] s = Some (OK, s)"
| "flushFile_loop P f (i # is) s =
     (case flushFile_step P f i s of
        None \<Rightarrow> None
      | Some (Return st s') \<Rightarrow> Some (st, s')
      | Some (Next s') \<Rightarrow> flushFile_loop P f is s')"

definition flushFile ::
  "('db, 'p) Provider \<Rightarrow> filep \<Rightarrow> ('db, 'p) BufMgr \<Rightarrow> (Status \<times> ('db, 'p) BufMgr) option" where
  "flushFile P f s = flushFile_loop P f [0..<numBufs s] s"

section \<open>Invariants of the pool and runs of its interface\<close>

text \<open>A frame is pinned when it is valid with a positive pin count.\<close>

definition pinned :: "('db, 'p) BufMgr \<Rightarrow> nat \<Rightarrow> bool" where
  "pinned s i = (i < length (bufTable s) \<and> valid (bufTable s ! i) \<and> 0 < pinCnt (bufTable s ! i))"

text \<open>
  The arrays have \<open>numBufs\<close> entries and the hand is inside them; the hash table and the
  valid descriptors describe each other (invariant I1); pin counts are not negative and
  an invalid frame has none; a valid frame has a file.
\<close>

definition wf_pool :: "('db, 'p) BufMgr \<Rightarrow> bool" where
  "wf_pool s = (length (bufTable s) = numBufs s \<and> length (bufPool s) = numBufs s \<and>
                (0 < numBufs s \<longrightarrow> clockHand s < numBufs s))"

definition desc_ok :: "('db, 'p) BufMgr \<Rightarrow> bool" where
  "desc_ok s = (\<forall>i < length (bufTable s).
      (valid (bufTable s ! i) \<longrightarrow>
         hashTable s (dfile (bufTable s ! i), pageNo (bufTable s ! i)) = Some i \<and>
         dfile (bufTable s ! i) \<noteq> None \<and> 0 \<le> pinCnt (bufTable s ! i)) \<and>
      (\<not> valid (bufTable s ! i) \<longrightarrow> pinCnt (bufTable s ! i) = 0))"

definition hash_ok :: "('db, 'p) BufMgr \<Rightarrow> bool" where
  "hash_ok s = (\<forall>k i. hashTable s k = Some i \<longrightarrow>
      i < length (bufTable s) \<and> valid (bufTable s ! i) \<and>
      dfile (bufTable s ! i) = fst k \<and> pageNo (bufTable s ! i) = snd k)"

definition Inv :: "('db, 'p) BufMgr \<Rightarrow> bool" where
  "Inv s = (wf_pool s \<and> desc_ok s \<and> hash_ok s)"

text \<open>
  \<open>frozen s s'\<close>: every frame pinned in \<open>s\<close> has in \<open>s'\<close> the same identity, pin count,
  dirty bit and contents, and is still valid. \<open>keeps s s'\<close> is the same without the pin
  count and the dirty bit, which \<open>readPage\<close> and \<open>unPinPage\<close> change on purpose.
\<close>

definition frozen :: "('db, 'p) BufMgr \<Rightarrow> ('db, 'p) BufMgr \<Rightarrow> bool" where
  "frozen s s' = (\<forall>i. pinned s i \<longrightarrow>
       i < length (bufTable s') \<and>
       valid (bufTable s' ! i) \<and> dfile (bufTable s' ! i) = dfile (bufTable s ! i) \<and>
       pageNo (bufTable s' ! i) = pageNo (bufTable s ! i) \<and>
       pinCnt (bufTable s' ! i) = pinCnt (bufTable s ! i) \<and>
       dirty (bufTable s' ! i) = dirty (bufTable s ! i) \<and>
       bufPool s' ! i = bufPool s ! i)"

definition keeps :: "('db, 'p) BufMgr \<Rightarrow> ('db, 'p) BufMgr \<Rightarrow> bool" where
  "keeps s s' = (\<forall>i. pinned s i \<longrightarrow>
       i < length (bufTable s') \<and>
       valid (bufTable s' ! i) \<and> dfile (bufTable s' ! i) = dfile (bufTable s ! i) \<and>
       pageNo (bufTable s' ! i) = pageNo (bufTable s ! i) \<and>
       bufPool s' ! i = bufPool s ! i)"

text \<open>
  The operations of the pool's interface. \<open>exec\<close> runs one and drops the out-parameters.
  \<open>disposePage\<close> is legal on a page that is not pinned (caller discipline); the other
  operations are legal everywhere. \<open>run\<close> executes a list of legal operations and has
  no result when one of them is illegal or has undefined behaviour.
\<close>

datatype pool_op =
    ReadPage filep int
  | UnPinPage filep int bool
  | AllocPage filep
  | FlushFile filep
  | AllocBuf
  | DisposePage filep int

fun exec ::
  "('db, 'p) Provider \<Rightarrow> pool_op \<Rightarrow> ('db, 'p) BufMgr \<Rightarrow> (Status \<times> ('db, 'p) BufMgr) option" where
  "exec P (ReadPage f p) s = map_option (\<lambda>(st, _, s'). (st, s')) (readPage P f p s)"
| "exec P (UnPinPage f p d) s = unPinPage f p d s"
| "exec P (AllocPage f) s = map_option (\<lambda>(st, _, _, s'). (st, s')) (allocPage P f s)"
| "exec P (FlushFile f) s = flushFile P f s"
| "exec P AllocBuf s = map_option (\<lambda>(st, _, s'). (st, s')) (allocBuf P s)"
| "exec P (DisposePage f p) s = disposePage P f p s"

fun legal :: "('db, 'p) BufMgr \<Rightarrow> pool_op \<Rightarrow> bool" where
  "legal s (DisposePage f p) =
     (case hashTable s (f, p) of
        None \<Rightarrow> True
      | Some i \<Rightarrow> i < length (bufTable s) \<and> pinCnt (bufTable s ! i) \<le> 0)"
| "legal s _ = True"

fun run ::
  "('db, 'p) Provider \<Rightarrow> pool_op list \<Rightarrow> ('db, 'p) BufMgr \<Rightarrow> ('db, 'p) BufMgr option" where
  "run P [] s = Some s"
| "run P (x # xs) s =
     (if legal s x
      then (case exec P x s of None \<Rightarrow> None | Some (st, s') \<Rightarrow> run P xs s')
      else None)"

section \<open>What flushFile leaves behind, in closed form\<close>

text \<open>
  These definitions follow the description of \<open>flushFile\<close> and are compared with the
  loop of the source. \<open>flushed d\<close> is a descriptor after its frame was flushed.
  \<open>flush_writes\<close> is the state of the file layer after the dirty frames of file \<open>fl\<close>
  among the listed ones were written back, in that order. \<open>flush_prefix P fl s k\<close> is the
  pool after the frames of file \<open>fl\<close> below index \<open>k\<close> were written back if dirty,
  removed from the hash table and invalidated; the frames from \<open>k\<close> on are as in \<open>s\<close>.
  \<open>clean_prefix P fl s k\<close>: no frame below \<open>k\<close> stops the loop, that is, each frame of
  the file below \<open>k\<close> is valid and not pinned, and its write-back, if it is dirty,
  succeeds.
\<close>

definition flushed :: "BufDesc \<Rightarrow> BufDesc" where
  "flushed d = d\<lparr>dfile := None, pageNo := -1, dirty := False, valid := False\<rparr>"

fun flush_writes ::
  "('db, 'p) Provider \<Rightarrow> fileid \<Rightarrow> BufDesc list \<Rightarrow> 'p list \<Rightarrow> nat list \<Rightarrow> 'db \<Rightarrow> 'db" where
  "flush_writes P fl bt bp [] d = d"
| "flush_writes P fl bt bp (i # js) d =
     flush_writes P fl bt bp js
       (if valid (bt ! i) \<and> dfile (bt ! i) = Some fl \<and> dirty (bt ! i)
        then snd (f_writePage P d fl (pageNo (bt ! i)) (bp ! i)) else d)"

definition flush_prefix ::
  "('db, 'p) Provider \<Rightarrow> fileid \<Rightarrow> ('db, 'p) BufMgr \<Rightarrow> nat \<Rightarrow> ('db, 'p) BufMgr" where
  "flush_prefix P fl s k =
     s\<lparr>bufTable := map (\<lambda>j. if j < k \<and> dfile (bufTable s ! j) = Some fl
                             then flushed (bufTable s ! j) else bufTable s ! j)
                       [0..<length (bufTable s)],
       hashTable := (\<lambda>key. if \<exists>j<k. dfile (bufTable s ! j) = Some fl \<and>
                                     key = (Some fl, pageNo (bufTable s ! j))
                            then None else hashTable s key),
       files := flush_writes P fl (bufTable s) (bufPool s) [0..<k] (files s)\<rparr>"

definition clean_prefix ::
  "('db, 'p) Provider \<Rightarrow> fileid \<Rightarrow> ('db, 'p) BufMgr \<Rightarrow> nat \<Rightarrow> bool" where
  "clean_prefix P fl s k =
     (\<forall>j<k. dfile (bufTable s ! j) = Some fl \<longrightarrow>
        valid (bufTable s ! j) \<and> pinCnt (bufTable s ! j) \<le> 0 \<and>
        (dirty (bufTable s ! j) \<longrightarrow>
           fst (f_writePage P (flush_writes P fl (bufTable s) (bufPool s) [0..<j] (files s))
                  fl (pageNo (bufTable s ! j)) (bufPool s ! j)) = OK))"

section \<open>Heap files: data\<close>

text \<open>
  A record identifier \<open>(pageNo, slotNo)\<close>; its page number field is \<open>pgNo\<close> here.
  \<open>NULLRID\<close> is \<open>(-1, -1)\<close>. A record is its bytes and its length.
\<close>

record RID =
  pgNo :: int
  slotNo :: int

definition NULLRID :: RID where
  "NULLRID = \<lparr>pgNo = -1, slotNo = -1\<rparr>"

record Record =
  rdata :: string
  rlength :: int

text \<open>
  The enumerations of the scan parameters. A C++ enum parameter can hold a value that
  is none of its enumerators; \<open>OtherType\<close> and \<open>OtherOp\<close> stand for those.
\<close>

datatype Datatype = STRING | INTEGER | FLOAT | OtherType int

datatype Operator = LT | LTE | EQ | GTE | GT | NE | OtherOp int

text \<open>The header of a heap file, stored in the file's first page.\<close>

record FileHdrPage =
  fileName :: string
  pageCnt :: int
  recCnt :: int
  firstPage :: int
  lastPage :: int

text \<open>
  The bytes of a page are read through two types in the source: as a \<open>FileHdrPage\<close>
  (after \<open>reinterpret_cast\<close>) and as a slotted \<open>Page\<close>. The model keeps the two views of
  a frame side by side; the code reads a given page through one of them only.
\<close>

record 'd page =
  hdr :: FileHdrPage
  dat :: 'd

text \<open>
  The sign of the difference that \<open>matchRec\<close> computes in a \<open>float\<close>; \<open>DNaN\<close> is a
  difference that compares false with zero under every operator but \<open>!=\<close>.
\<close>

datatype FDiff = DNeg | DZero | DPos | DNaN

text \<open>
  The slotted page layer (class \<open>Page\<close>) and the constants of the file and page layer
  are not among the sources: they are parameters. \<open>'d\<close> is the contents of a page seen
  as a \<open>Page\<close>. \<open>fieldDiff t rec offset length filter\<close> is the sign of the difference
  between the field of the record and the filter value, compared as type \<open>t\<close> (the
  \<open>memcpy\<close>, subtraction and \<open>strncmp\<close> of \<open>matchRec\<close>).
\<close>

record 'd PageLayer =
  pg_init :: "'d \<Rightarrow> int \<Rightarrow> 'd"
  pg_insertRecord :: "'d \<Rightarrow> Record \<Rightarrow> Status \<times> RID \<times> 'd"
  pg_getRecord :: "'d \<Rightarrow> RID \<Rightarrow> Status \<times> Record"
  pg_firstRecord :: "'d \<Rightarrow> Status \<times> RID"
  pg_nextRecord :: "'d \<Rightarrow> RID \<Rightarrow> Status \<times> RID"
  pg_getNextPage :: "'d \<Rightarrow> Status \<times> int"
  pg_setNextPage :: "'d \<Rightarrow> int \<Rightarrow> Status \<times> 'd"
  fieldDiff :: "Datatype \<Rightarrow> Record \<Rightarrow> int \<Rightarrow> int \<Rightarrow> string \<Rightarrow> FDiff"
  PAGESIZE :: int
  DPFIXED :: int
  MAXNAMESIZE :: nat
  sizeof_int :: int
  sizeof_float :: int

text \<open>
  The state of a \<open>HeapFile\<close> object, with the members that \<open>HeapFileScan\<close> adds (named
  \<open>s_offset\<close>, \<open>s_length\<close>, \<open>s_type\<close>, \<open>s_filter\<close>, \<open>s_op\<close> here). \<open>headerPage\<close> and
  \<open>curPage\<close> point into the pool: they are frame indices, or \<open>NULL\<close>.
\<close>

record HeapFile =
  filePtr :: filep
  headerPage :: "nat option"
  headerPageNo :: int
  hdrDirtyFlag :: bool
  curPage :: "nat option"
  curPageNo :: int
  curDirtyFlag :: bool
  curRec :: RID
  s_offset :: int
  s_length :: int
  s_type :: Datatype
  s_filter :: "string option"
  s_op :: Operator
  markedPageNo :: int
  markedRec :: RID

type_synonym ('db, 'd) world = "('db, 'd page) BufMgr"

text \<open>
  Reading and writing through a page pointer. A pointer outside the pool is undefined
  behaviour, as a null pointer is.
\<close>

definition frame_page :: "('db, 'd) world \<Rightarrow> nat option \<Rightarrow> 'd page option" where
  "frame_page w ptr =
     (case ptr of
        None \<Rightarrow> None
      | Some fr \<Rightarrow> if fr < length (bufPool w) then Some (bufPool w ! fr) else None)"

definition set_dat :: "nat \<Rightarrow> 'd \<Rightarrow> ('db, 'd) world \<Rightarrow> ('db, 'd) world" where
  "set_dat fr d w = w\<lparr>bufPool := (bufPool w)[fr := (bufPool w ! fr)\<lparr>dat := d\<rparr>]\<rparr>"

definition set_hdr :: "nat \<Rightarrow> FileHdrPage \<Rightarrow> ('db, 'd) world \<Rightarrow> ('db, 'd) world" where
  "set_hdr fr hp w = w\<lparr>bufPool := (bufPool w)[fr := (bufPool w ! fr)\<lparr>hdr := hp\<rparr>]\<rparr>"

section \<open>Heap files: the two variants of heapfile.C\<close>

text \<open>
  The repository holds two variants of the heap file code: stage4/heapfile.C, whose
  functions keep their names below, and a second file (unnamed/part_001), whose
  functions carry the suffix \<open>_p1\<close>. A result \<open>None\<close> is undefined behaviour (a null or
  wild pointer is dereferenced, or the buffer manager's result is \<open>None\<close>).
\<close>

subsection \<open>Construction and destruction\<close>

text \<open>
  The members as the initialiser list sets them. stage4's \<open>HeapFileScan\<close> constructor
  leaves the scan members other than \<open>filter\<close> uninitialised: \<open>u\<close> supplies their values.
\<close>

definition HeapFile_members :: "HeapFile \<Rightarrow> HeapFile" where
  "HeapFile_members u =
     u\<lparr>filePtr := None, headerPage := None, headerPageNo := -1, hdrDirtyFlag := False,
       curPage := None, curPageNo := -1, curDirtyFlag := False, curRec := NULLRID\<rparr>"

definition HeapFile_ctor ::
  "('db, 'd page) Provider \<Rightarrow> string \<Rightarrow> HeapFile \<Rightarrow> ('db, 'd) world \<Rightarrow>
     (Status \<times> HeapFile \<times> ('db, 'd) world) option" where
  "HeapFile_ctor P name u w =
     (case db_openFile P (files w) name of
        (status, fp, d1) \<Rightarrow>
          let h1 = (HeapFile_members u)\<lparr>filePtr := fp\<rparr>; w1 = w\<lparr>files := d1\<rparr> in
          if status = OK then
            (case fp of
               None \<Rightarrow> None
             | Some fl \<Rightarrow>
                 (case f_getFirstPage P d1 fl of
                    (status2, hpno) \<Rightarrow>
                      let h2 = h1\<lparr>headerPageNo := hpno\<rparr> in
                      if status2 \<noteq> OK then Some (status2, h2, w1)
                      else
                        (case readPage P fp hpno w1 of
                           None \<Rightarrow> None
                         | Some (status3, pagePtr, w2) \<Rightarrow>
                             if status3 \<noteq> OK then Some (status3, h2, w2)
                             else
                               (case frame_page w2 pagePtr of
                                  None \<Rightarrow> None
                                | Some hp \<Rightarrow>
                                    let h3 = h2\<lparr>headerPage := pagePtr, hdrDirtyFlag := False\<rparr> in
                                    (case readPage P fp (firstPage (hdr hp)) w2 of
                                       None \<Rightarrow> None
                                     | Some (status4, cp, w3) \<Rightarrow>
                                         let h4 = (case cp of None \<Rightarrow> h3
                                                   | Some _ \<Rightarrow> h3\<lparr>curPage := cp\<rparr>) in
                                         if status4 \<noteq> OK then Some (status4, h4, w3)
                                         else
                                           (case frame_page w3 pagePtr of
                                              None \<Rightarrow> None
                                            | Some hp' \<Rightarrow>
                                                Some (OK,
                                                  h4\<lparr>curPageNo := firstPage (hdr hp'),
                                                     curDirtyFlag := False, curRec := NULLRID\<rparr>,
                                                  w3)))))))
          else Some (status, h1, w1))"

text \<open>stage4's \<open>HeapFileScan\<close> constructor: the base constructor, then \<open>filter = NULL\<close>.\<close>

definition HeapFileScan_ctor ::
  "('db, 'd page) Provider \<Rightarrow> string \<Rightarrow> HeapFile \<Rightarrow> ('db, 'd) world \<Rightarrow>
     (Status \<times> HeapFile \<times> ('db, 'd) world) option" where
  "HeapFileScan_ctor P name u w =
     map_option (\<lambda>(st, h, w'). (st, h\<lparr>s_filter := None\<rparr>, w')) (HeapFile_ctor P name u w)"

text \<open>
  part_001's constructor. On every failure after the open it closes the file and
  clears \<open>filePtr\<close>; after pinning the header it also unpins it.
\<close>

definition HeapFile_ctor_p1 ::
  "('db, 'd page) Provider \<Rightarrow> string \<Rightarrow> HeapFile \<Rightarrow> ('db, 'd) world \<Rightarrow>
     (Status \<times> HeapFile \<times> ('db, 'd) world) option" where
  "HeapFile_ctor_p1 P name u w =
     (case db_openFile P (files w) name of
        (status, fp, d1) \<Rightarrow>
          let h1 = (HeapFile_members u)\<lparr>filePtr := fp\<rparr>; w1 = w\<lparr>files := d1\<rparr> in
          if status \<noteq> OK then Some (status, h1\<lparr>filePtr := None\<rparr>, w1)
          else
            (case fp of
               None \<Rightarrow> None
             | Some fl \<Rightarrow>
                 (case f_getFirstPage P d1 fl of
                    (status2, hpno) \<Rightarrow>
                      let h2 = h1\<lparr>headerPageNo := hpno\<rparr> in
                      if status2 \<noteq> OK \<or> hpno < 0 then
                        (case db_closeFile P d1 fp of
                           (_, d2) \<Rightarrow>
                             Some (if status2 \<noteq> OK then status2 else BADPAGENO,
                                   h2\<lparr>filePtr := None\<rparr>, w1\<lparr>files := d2\<rparr>))
                      else
                        (case readPage P fp hpno w1 of
                           None \<Rightarrow> None
                         | Some (status3, pagePtr, w2) \<Rightarrow>
                             if status3 \<noteq> OK then
                               (case db_closeFile P (files w2) fp of
                                  (_, d3) \<Rightarrow>
                                    Some (status3, h2\<lparr>filePtr := None\<rparr>, w2\<lparr>files := d3\<rparr>))
                             else
                               (case frame_page w2 pagePtr of
                                  None \<Rightarrow> None
                                | Some hp \<Rightarrow>
                                    let h3 = h2\<lparr>headerPage := pagePtr, hdrDirtyFlag := False,
                                               curRec := NULLRID\<rparr> in
                                    if firstPage (hdr hp) \<noteq> -1 then
                                      (case readPage P fp (firstPage (hdr hp)) w2 of
                                         None \<Rightarrow> None
                                       | Some (status4, cp, w3) \<Rightarrow>
                                           let h4 = (case cp of None \<Rightarrow> h3
                                                     | Some _ \<Rightarrow> h3\<lparr>curPage := cp\<rparr>) in
                                           if status4 \<noteq> OK then
                                             (case unPinPage fp hpno False w3 of
                                                None \<Rightarrow> None
                                              | Some (_, w4) \<Rightarrow>
                                                  (case db_closeFile P (files w4) fp of
                                                     (_, d5) \<Rightarrow>
                                                       Some (status4,
                                                         h4\<lparr>filePtr := None, headerPage := None\<rparr>,
                                                         w4\<lparr>files := d5\<rparr>)))
                                           else
                                             (case frame_page w3 pagePtr of
                                                None \<Rightarrow> None
                                              | Some hp' \<Rightarrow>
                                                  Some (OK,
                                                    h4\<lparr>curPageNo := firstPage (hdr hp'),
                                                       curDirtyFlag := False\<rparr>,
                                                    w3)))
                                    else Some (OK, h3, w2))))))"

text \<open>part_001's \<open>HeapFileScan\<close> constructor initialises all the scan members.\<close>

definition HeapFileScan_ctor_p1 ::
  "('db, 'd page) Provider \<Rightarrow> string \<Rightarrow> HeapFile \<Rightarrow> ('db, 'd) world \<Rightarrow>
     (Status \<times> HeapFile \<times> ('db, 'd) world) option" where
  "HeapFileScan_ctor_p1 P name u w =
     map_option
       (\<lambda>(st, h, w'). (st, h\<lparr>s_offset := 0, s_length := 0, s_type := STRING, s_filter := None,
                                s_op := EQ, markedPageNo := -1, markedRec := NULLRID\<rparr>, w'))
       (HeapFile_ctor_p1 P name u w)"

text \<open>
  part_001's destructor. It returns at once when \<open>filePtr\<close> is null. It prints the
  file name read through \<open>headerPage\<close> when that is not null. The results of the unpins
  and of the close are only printed.
\<close>

definition HeapFile_dtor_p1 ::
  "('db, 'd page) Provider \<Rightarrow> HeapFile \<Rightarrow> ('db, 'd) world \<Rightarrow> (HeapFile \<times> ('db, 'd) world) option" where
  "HeapFile_dtor_p1 P h w =
     (if filePtr h = None then Some (h, w)
      else if headerPage h \<noteq> None \<and> frame_page w (headerPage h) = None then None
      else
        (case (if curPage h \<noteq> None
               then map_option
                      (\<lambda>(_, w'). (h\<lparr>curPage := None, curPageNo := 0, curDirtyFlag := False\<rparr>, w'))
                      (unPinPage (filePtr h) (curPageNo h) (curDirtyFlag h) w)
               else Some (h, w)) of
           None \<Rightarrow> None
         | Some (h1, w1) \<Rightarrow>
             (case (if headerPage h1 \<noteq> None
                    then map_option
                           (\<lambda>(_, w'). (h1\<lparr>headerPage := None, headerPageNo := -1,
                                           hdrDirtyFlag := False\<rparr>, w'))
                           (unPinPage (filePtr h1) (headerPageNo h1) (hdrDirtyFlag h1) w1)
                    else Some (h1, w1)) of
                None \<Rightarrow> None
              | Some (h2, w2) \<Rightarrow>
                  (case db_closeFile P (files w2) (filePtr h2) of
                     (_, d3) \<Rightarrow> Some (h2, w2\<lparr>files := d3\<rparr>)))))"

subsection \<open>Record lookup by identifier\<close>

text \<open>
  \<open>HeapFile::getRecord\<close> of stage4. The record found is returned with status \<open>OK\<close>.
\<close>

definition getRecord ::
  "('db, 'd page) Provider \<Rightarrow> 'd PageLayer \<Rightarrow> RID \<Rightarrow> HeapFile \<Rightarrow> ('db, 'd) world \<Rightarrow>
     (Status \<times> Record option \<times> HeapFile \<times> ('db, 'd) world) option" where
  "getRecord P G rid h w =
     (if curPage h \<noteq> None \<and> curPageNo h = pgNo rid then
        (case frame_page w (curPage h) of
           None \<Rightarrow> None
         | Some pg \<Rightarrow>
             (case pg_getRecord G (dat pg) rid of
                (status, rec) \<Rightarrow>
                  if status \<noteq> OK then Some (status, None, h, w)
                  else Some (OK, Some rec, h\<lparr>curRec := (curRec h)\<lparr>slotNo := slotNo rid\<rparr>\<rparr>, w)))
      else
        (case (if curPageNo h \<noteq> pgNo NULLRID
               then unPinPage (filePtr h) (curPageNo h) (curDirtyFlag h) w
               else Some (OK, w)) of
           None \<Rightarrow> None
         | Some (status, w1) \<Rightarrow>
             if status \<noteq> OK then Some (status, None, h, w1)
             else
               (case readPage P (filePtr h) (pgNo rid) w1 of
                  None \<Rightarrow> None
                | Some (status2, cp, w2) \<Rightarrow>
                    let h2 = (case cp of None \<Rightarrow> h | Some _ \<Rightarrow> h\<lparr>curPage := cp\<rparr>) in
                    if status2 \<noteq> OK then Some (status2, None, h2, w2)
                    else
                      (case frame_page w2 (curPage h2) of
                         None \<Rightarrow> None
                       | Some pg \<Rightarrow>
                           (case pg_getRecord G (dat pg) rid of
                              (status3, rec) \<Rightarrow>
                                if status3 \<noteq> OK then Some (status3, None, h2, w2)
                                else Some (OK, Some rec,
                                       h2\<lparr>curPageNo := pgNo rid, curDirtyFlag := False,
                                          curRec := (curRec h2)\<lparr>pgNo := pgNo rid,
                                                               slotNo := slotNo rid\<rparr>\<rparr>,
                                       w2))))))"

text \<open>\<open>HeapFile::getRecord\<close> of part_001.\<close>

definition getRecord_p1 ::
  "('db, 'd page) Provider \<Rightarrow> 'd PageLayer \<Rightarrow> RID \<Rightarrow> HeapFile \<Rightarrow> ('db, 'd) world \<Rightarrow>
     (Status \<times> Record option \<times> HeapFile \<times> ('db, 'd) world) option" where
  "getRecord_p1 P G rid h w =
     (if pgNo rid < 0 \<or> slotNo rid = 0 then Some (BADRID, None, h, w)
      else
        (case (if curPage h = None \<or> curPageNo h \<noteq> pgNo rid then
                 (case (if curPage h \<noteq> None
                        then unPinPage (filePtr h) (curPageNo h) (curDirtyFlag h) w
                        else Some (OK, w)) of
                    None \<Rightarrow> None
                  | Some (status, w1) \<Rightarrow>
                      if status \<noteq> OK then Some (status, h, w1)
                      else
                        (case readPage P (filePtr h) (pgNo rid) w1 of
                           None \<Rightarrow> None
                         | Some (status2, cp, w2) \<Rightarrow>
                             let h2 = (case cp of None \<Rightarrow> h | Some _ \<Rightarrow> h\<lparr>curPage := cp\<rparr>) in
                             if status2 \<noteq> OK then
                               Some (status2,
                                 h2\<lparr>curPage := None, curPageNo := -1, curDirtyFlag := False\<rparr>, w2)
                             else Some (OK, h2\<lparr>curPageNo := pgNo rid, curDirtyFlag := False\<rparr>, w2)))
               else Some (OK, h, w)) of
           None \<Rightarrow> None
         | Some (status, h3, w3) \<Rightarrow>
             if status \<noteq> OK then Some (status, None, h3, w3)
             else
               (case frame_page w3 (curPage h3) of
                  None \<Rightarrow> None
                | Some pg \<Rightarrow>
                    (case pg_getRecord G (dat pg) rid of
                       (status4, rec) \<Rightarrow>
                         if status4 = OK then Some (OK, Some rec, h3\<lparr>curRec := rid\<rparr>, w3)
                         else Some (status4, None, h3, w3)))))"

subsection \<open>Starting, ending, marking and resetting a scan\<close>

text \<open>The parameter check that both variants of \<open>startScan\<close> make for a non-null filter.\<close>

definition bad_scan_parm :: "'d PageLayer \<Rightarrow> int \<Rightarrow> int \<Rightarrow> Datatype \<Rightarrow> Operator \<Rightarrow> bool" where
  "bad_scan_parm G offset_' length_' type_' op_' =
     ((offset_' < 0 \<or> length_' < 1) \<or>
      (type_' \<noteq> STRING \<and> type_' \<noteq> INTEGER \<and> type_' \<noteq> FLOAT) \<or>
      ((type_' = INTEGER \<and> length_' \<noteq> sizeof_int G) \<or>
       (type_' = FLOAT \<and> length_' \<noteq> sizeof_float G)) \<or>
      (op_' \<noteq> LT \<and> op_' \<noteq> LTE \<and> op_' \<noteq> EQ \<and> op_' \<noteq> GTE \<and> op_' \<noteq> GT \<and> op_' \<noteq> NE))"

text \<open>\<open>HeapFileScan::startScan\<close> of stage4: it touches the filter members only.\<close>

definition startScan ::
  "'d PageLayer \<Rightarrow> int \<Rightarrow> int \<Rightarrow> Datatype \<Rightarrow> string option \<Rightarrow> Operator \<Rightarrow> HeapFile \<Rightarrow>
     Status \<times> HeapFile" where
  "startScan G offset_' length_' type_' filter_' op_' h =
     (if filter_' = None then (OK, h\<lparr>s_filter := None\<rparr>)
      else if bad_scan_parm G offset_' length_' type_' op_' then (BADSCANPARM, h)
      else (OK, h\<lparr>s_offset := offset_', s_length := length_', s_type := type_',
                  s_filter := filter_', s_op := op_'\<rparr>))"

text \<open>
  \<open>HeapFileScan::startScan\<close> of part_001: after the filter, it clears the mark, unpins
  the pinned page and pins the first data page.
\<close>

definition startScan_p1 ::
  "('db, 'd page) Provider \<Rightarrow> 'd PageLayer \<Rightarrow> int \<Rightarrow> int \<Rightarrow> Datatype \<Rightarrow> string option \<Rightarrow>
     Operator \<Rightarrow> HeapFile \<Rightarrow> ('db, 'd) world \<Rightarrow> (Status \<times> HeapFile \<times> ('db, 'd) world) option" where
  "startScan_p1 P G offset_' length_' type_' filter_' op_' h w =
     (if filter_' \<noteq> None \<and> bad_scan_parm G offset_' length_' type_' op_'
      then Some (BADSCANPARM, h, w)
      else
        let h0 = (if filter_' = None then h\<lparr>s_filter := None\<rparr>
                  else h\<lparr>s_offset := offset_', s_length := length_', s_type := type_',
                         s_filter := filter_', s_op := op_'\<rparr>);
            h1 = h0\<lparr>markedPageNo := -1, markedRec := NULLRID\<rparr>
        in
        (case (if curPage h1 \<noteq> None then
                 (case unPinPage (filePtr h1) (curPageNo h1) (curDirtyFlag h1) w of
                    None \<Rightarrow> None
                  | Some (status, w1) \<Rightarrow>
                      if status \<noteq> OK then Some (status, h1, w1)
                      else Some (OK, h1\<lparr>curPage := None, curPageNo := -1,
                                        curDirtyFlag := False\<rparr>, w1))
               else Some (OK, h1, w)) of
           None \<Rightarrow> None
         | Some (status, h2, w2) \<Rightarrow>
             if status \<noteq> OK then Some (status, h2, w2)
             else if headerPage h2 = None then Some (OK, h2\<lparr>curRec := NULLRID\<rparr>, w2)
             else
               (case frame_page w2 (headerPage h2) of
                  None \<Rightarrow> None
                | Some hp \<Rightarrow>
                    if firstPage (hdr hp) = -1 then Some (OK, h2\<lparr>curRec := NULLRID\<rparr>, w2)
                    else
                      (case readPage P (filePtr h2) (firstPage (hdr hp)) w2 of
                         None \<Rightarrow> None
                       | Some (status3, cp, w3) \<Rightarrow>
                           let h3 = (case cp of None \<Rightarrow> h2 | Some _ \<Rightarrow> h2\<lparr>curPage := cp\<rparr>) in
                           if status3 \<noteq> OK then Some (status3, h3, w3)
                           else
                             (case frame_page w3 (headerPage h3) of
                                None \<Rightarrow> None
                              | Some hp' \<Rightarrow>
                                  Some (OK,
                                    h3\<lparr>curPageNo := firstPage (hdr hp'),
                                       curDirtyFlag := False, curRec := NULLRID\<rparr>,
                                    w3))))))"

text \<open>\<open>endScan\<close>: stage4 leaves \<open>curPageNo = 0\<close>, part_001 \<open>-1\<close> and a null \<open>curRec\<close>.\<close>

definition endScan ::
  "HeapFile \<Rightarrow> ('db, 'd) world \<Rightarrow> (Status \<times> HeapFile \<times> ('db, 'd) world) option" where
  "endScan h w =
     (if curPage h \<noteq> None then
        map_option
          (\<lambda>(status, w'). (status, h\<lparr>curPage := None, curPageNo := 0, curDirtyFlag := False\<rparr>, w'))
          (unPinPage (filePtr h) (curPageNo h) (curDirtyFlag h) w)
      else Some (OK, h, w))"

definition endScan_p1 ::
  "HeapFile \<Rightarrow> ('db, 'd) world \<Rightarrow> (Status \<times> HeapFile \<times> ('db, 'd) world) option" where
  "endScan_p1 h w =
     (if curPage h \<noteq> None then
        map_option
          (\<lambda>(status, w'). (status, h\<lparr>curPage := None, curPageNo := -1, curDirtyFlag := False,
                                     curRec := NULLRID\<rparr>, w'))
          (unPinPage (filePtr h) (curPageNo h) (curDirtyFlag h) w)
      else Some (OK, h, w))"

definition markScan :: "HeapFile \<Rightarrow> Status \<times> HeapFile" where
  "markScan h = (OK, h\<lparr>markedPageNo := curPageNo h, markedRec := curRec h\<rparr>)"

definition markScan_p1 :: "HeapFile \<Rightarrow> Status \<times> HeapFile" where
  "markScan_p1 h =
     (if pgNo (curRec h) < 0 \<or> curPage h = None then (BADSCANID, h)
      else (OK, h\<lparr>markedPageNo := curPageNo h, markedRec := curRec h\<rparr>))"

text \<open>
  \<open>resetScan\<close>. Both variants restore \<open>curPageNo\<close> and \<open>curRec\<close> before reading the marked
  page, so they stay restored when the read fails. They differ in the two guards of
  part_001.
\<close>

definition resetScan ::
  "('db, 'd page) Provider \<Rightarrow> HeapFile \<Rightarrow> ('db, 'd) world \<Rightarrow>
     (Status \<times> HeapFile \<times> ('db, 'd) world) option" where
  "resetScan P h w =
     (if markedPageNo h \<noteq> curPageNo h then
        (case (if curPage h \<noteq> None
               then unPinPage (filePtr h) (curPageNo h) (curDirtyFlag h) w
               else Some (OK, w)) of
           None \<Rightarrow> None
         | Some (status, w1) \<Rightarrow>
             if status \<noteq> OK then Some (status, h, w1)
             else
               (let h1 = h\<lparr>curPageNo := markedPageNo h, curRec := markedRec h\<rparr> in
                case readPage P (filePtr h1) (curPageNo h1) w1 of
                  None \<Rightarrow> None
                | Some (status2, cp, w2) \<Rightarrow>
                    let h2 = (case cp of None \<Rightarrow> h1 | Some _ \<Rightarrow> h1\<lparr>curPage := cp\<rparr>) in
                    if status2 \<noteq> OK then Some (status2, h2, w2)
                    else Some (OK, h2\<lparr>curDirtyFlag := False\<rparr>, w2)))
      else Some (OK, h\<lparr>curRec := markedRec h\<rparr>, w))"

definition resetScan_p1 ::
  "('db, 'd page) Provider \<Rightarrow> HeapFile \<Rightarrow> ('db, 'd) world \<Rightarrow>
     (Status \<times> HeapFile \<times> ('db, 'd) world) option" where
  "resetScan_p1 P h w =
     (if markedPageNo h < 0 then Some (BADSCANID, h, w)
      else if curPage h = None \<or> markedPageNo h \<noteq> curPageNo h then
        (case (if curPage h \<noteq> None
               then unPinPage (filePtr h) (curPageNo h) (curDirtyFlag h) w
               else Some (OK, w)) of
           None \<Rightarrow> None
         | Some (status, w1) \<Rightarrow>
             if status \<noteq> OK then Some (status, h, w1)
             else
               (let h1 = h\<lparr>curPageNo := markedPageNo h, curRec := markedRec h\<rparr> in
                case readPage P (filePtr h1) (curPageNo h1) w1 of
                  None \<Rightarrow> None
                | Some (status2, cp, w2) \<Rightarrow>
                    let h2 = (case cp of None \<Rightarrow> h1 | Some _ \<Rightarrow> h1\<lparr>curPage := cp\<rparr>) in
                    if status2 \<noteq> OK then Some (status2, h2, w2)
                    else Some (OK, h2\<lparr>curDirtyFlag := False\<rparr>, w2)))
      else Some (OK, h\<lparr>curRec := markedRec h\<rparr>, w))"

subsection \<open>The scan predicate and scanNext\<close>

text \<open>
  \<open>matchRec\<close> is the same in both variants. \<open>offset\<close>, \<open>length\<close> and \<open>rec.length\<close> are C
  \<open>int\<close>s: the sum \<open>offset + length - 1\<close> is computed in \<open>int\<close>, left to right, and a sum
  outside the range of \<open>int\<close> is undefined behaviour. So is a comparison that reads
  outside the bytes of the record or of the local variable it copies them to: a field
  that starts before the record, a negative length, and for \<open>INTEGER\<close> and \<open>FLOAT\<close> a
  length other than the size of the type (\<open>startScan\<close> accepts none of these). The
  result is \<open>None\<close> when the behaviour is undefined.
\<close>

definition int_range :: "int \<Rightarrow> bool" where
  "int_range x = (- (2 ^ 31) \<le> x \<and> x < 2 ^ 31)"

definition field_readable :: "'d PageLayer \<Rightarrow> HeapFile \<Rightarrow> bool" where
  "field_readable G h =
     (case s_type h of
        STRING \<Rightarrow> 0 \<le> s_offset h \<and> 0 \<le> s_length h
      | INTEGER \<Rightarrow> 0 \<le> s_offset h \<and> s_length h = sizeof_int G
      | FLOAT \<Rightarrow> 0 \<le> s_offset h \<and> s_length h = sizeof_float G
      | OtherType _ \<Rightarrow> True)"

definition matchRec :: "'d PageLayer \<Rightarrow> HeapFile \<Rightarrow> Record \<Rightarrow> bool option" where
  "matchRec G h rec =
     (case s_filter h of
        None \<Rightarrow> Some True
      | Some flt \<Rightarrow>
          if \<not> int_range (s_offset h + s_length h) \<or> \<not> int_range (s_offset h + s_length h - 1)
          then None
          else if rlength rec \<le> s_offset h + s_length h - 1 then Some False
          else if \<not> field_readable G h then None
          else
            (let diff = (case s_type h of
                           OtherType _ \<Rightarrow> DZero
                         | t \<Rightarrow> fieldDiff G t rec (s_offset h) (s_length h) flt)
             in Some (case s_op h of
                  LT \<Rightarrow> diff = DNeg
                | LTE \<Rightarrow> diff = DNeg \<or> diff = DZero
                | EQ \<Rightarrow> diff = DZero
                | GTE \<Rightarrow> diff = DPos \<or> diff = DZero
                | GT \<Rightarrow> diff = DPos
                | NE \<Rightarrow> diff \<noteq> DZero
                | OtherOp _ \<Rightarrow> False)))"

text \<open>
  \<open>scanNext\<close> loops until a record matches or the pages end, and may not terminate (a
  cycle of pages without a matching record). The model counts the iterations of the
  \<open>while\<close> loop down from \<open>n\<close>: \<open>OutOfFuel\<close> when they are used up, \<open>Faults\<close> for undefined
  behaviour (of the pool, of a null \<open>curPage\<close> or of \<open>matchRec\<close>), \<open>Returns\<close> with the status, \<open>outRid\<close> when it is assigned, and the new state.
\<close>

datatype 'a outcome = OutOfFuel | Faults | Returns 'a

text \<open>
  What the loop asks of the current page: the first record when the scan stands before
  the first record, the record after \<open>curRec\<close> otherwise. The two variants test "before
  the first record" differently.
\<close>

definition next_in_page :: "'d PageLayer \<Rightarrow> HeapFile \<Rightarrow> 'd \<Rightarrow> Status \<times> RID" where
  "next_in_page G h d =
     (if pgNo (curRec h) = pgNo NULLRID \<and> slotNo (curRec h) = slotNo NULLRID
      then pg_firstRecord G d
      else pg_nextRecord G d (curRec h))"

definition next_in_page_p1 :: "'d PageLayer \<Rightarrow> HeapFile \<Rightarrow> 'd \<Rightarrow> Status \<times> RID" where
  "next_in_page_p1 G h d =
     (if pgNo (curRec h) = curPageNo h \<and> slotNo (curRec h) \<noteq> -1
      then pg_nextRecord G d (curRec h)
      else pg_firstRecord G d)"


fun scanNext_loop ::
  "('db, 'd page) Provider \<Rightarrow> 'd PageLayer \<Rightarrow> nat \<Rightarrow> HeapFile \<Rightarrow> ('db, 'd) world \<Rightarrow>
     (Status \<times> RID option \<times> HeapFile \<times> ('db, 'd) world) outcome" where
  "scanNext_loop P G 0 h w = OutOfFuel"
| "scanNext_loop P G (Suc n) h w =
     (case frame_page w (curPage h) of
        None \<Rightarrow> Faults
      | Some pg \<Rightarrow>
          (case next_in_page G h (dat pg) of
             (status, nextRid) \<Rightarrow>
               if status = ENDOFPAGE \<or> status = NORECORDS then
                 (case pg_getNextPage G (dat pg) of
                    (status2, nextPageNo) \<Rightarrow>
                      if status2 \<noteq> OK then Returns (status2, None, h, w)
                      else
                        (case unPinPage (filePtr h) (curPageNo h) (curDirtyFlag h) w of
                           None \<Rightarrow> Faults
                         | Some (status3, w1) \<Rightarrow>
                             if status3 \<noteq> OK then Returns (status3, None, h, w1)
                             else if nextPageNo = -1 then
                               Returns (FILEEOF, None,
                                 h\<lparr>curPage := None, curPageNo := -1, curRec := NULLRID\<rparr>, w1)
                             else
                               (case readPage P (filePtr h) nextPageNo w1 of
                                  None \<Rightarrow> Faults
                                | Some (status4, cp, w2) \<Rightarrow>
                                    if status4 \<noteq> OK then Returns (status4, None, h\<lparr>curPage := cp\<rparr>, w2)
                                    else scanNext_loop P G n
                                           (h\<lparr>curPage := cp, curPageNo := nextPageNo,
                                              curDirtyFlag := False, curRec := NULLRID\<rparr>) w2)))
               else if status \<noteq> OK then Returns (status, None, h, w)
               else
                 (case pg_getRecord G (dat pg) nextRid of
                    (status5, rec) \<Rightarrow>
                      if status5 \<noteq> OK then Returns (status5, None, h\<lparr>curRec := nextRid\<rparr>, w)
                      else
                        (case (if s_filter h = None then Some True
                               else matchRec G (h\<lparr>curRec := nextRid\<rparr>) rec) of
                           None \<Rightarrow> Faults
                         | Some True \<Rightarrow> Returns (OK, Some nextRid, h\<lparr>curRec := nextRid\<rparr>, w)
                         | Some False \<Rightarrow> scanNext_loop P G n (h\<lparr>curRec := nextRid\<rparr>) w))))"

text \<open>
  \<open>HeapFileScan::scanNext\<close> of stage4. In the loop \<open>curPage\<close> is set to \<open>NULL\<close> after the
  unpin, before \<open>readPage\<close> assigns it: it is the page read, or \<open>NULL\<close> when the read fails.
\<close>

definition scanNext ::
  "('db, 'd page) Provider \<Rightarrow> 'd PageLayer \<Rightarrow> nat \<Rightarrow> HeapFile \<Rightarrow> ('db, 'd) world \<Rightarrow>
     (Status \<times> RID option \<times> HeapFile \<times> ('db, 'd) world) outcome" where
  "scanNext P G n h w =
     (if curPage h = None \<and> curPageNo h = -1 then Returns (FILEEOF, None, h, w)
      else if curPage h = None then
        (case frame_page w (headerPage h) of
           None \<Rightarrow> Faults
         | Some hp \<Rightarrow>
             (case readPage P (filePtr h) (firstPage (hdr hp)) w of
                None \<Rightarrow> Faults
              | Some (status, cp, w1) \<Rightarrow>
                  if status \<noteq> OK then Returns (status, None, h\<lparr>curPage := cp\<rparr>, w1)
                  else
                    (case frame_page w1 (headerPage h) of
                       None \<Rightarrow> Faults
                     | Some hp' \<Rightarrow>
                         scanNext_loop P G n
                           (h\<lparr>curPage := cp, curPageNo := firstPage (hdr hp'),
                              curDirtyFlag := False, curRec := NULLRID\<rparr>) w1)))
      else scanNext_loop P G n h w)"

text \<open>
  \<open>HeapFileScan::scanNext\<close> of part_001. At the end of the last page it returns
  \<open>FILEEOF\<close> before the unpin.
\<close>

fun scanNext_loop_p1 ::
  "('db, 'd page) Provider \<Rightarrow> 'd PageLayer \<Rightarrow> nat \<Rightarrow> HeapFile \<Rightarrow> ('db, 'd) world \<Rightarrow>
     (Status \<times> RID option \<times> HeapFile \<times> ('db, 'd) world) outcome" where
  "scanNext_loop_p1 P G 0 h w = OutOfFuel"
| "scanNext_loop_p1 P G (Suc n) h w =
     (case frame_page w (curPage h) of
        None \<Rightarrow> Faults
      | Some pg \<Rightarrow>
          (case next_in_page_p1 G h (dat pg) of
             (status, nextRid) \<Rightarrow>
               if status = OK then
                 (case pg_getRecord G (dat pg) nextRid of
                    (status5, rec) \<Rightarrow>
                      if status5 \<noteq> OK then Returns (status5, None, h, w)
                      else
                        (case matchRec G (h\<lparr>curRec := nextRid\<rparr>) rec of
                           None \<Rightarrow> Faults
                         | Some True \<Rightarrow> Returns (OK, Some nextRid, h\<lparr>curRec := nextRid\<rparr>, w)
                         | Some False \<Rightarrow> scanNext_loop_p1 P G n (h\<lparr>curRec := nextRid\<rparr>) w))
               else if status \<noteq> ENDOFPAGE \<and> status \<noteq> NORECORDS then Returns (status, None, h, w)
               else
                 (case pg_getNextPage G (dat pg) of
                    (status2, nextPageNo) \<Rightarrow>
                      if status2 \<noteq> OK then Returns (status2, None, h, w)
                      else if nextPageNo = -1 then Returns (FILEEOF, None, h, w)
                      else
                        (case unPinPage (filePtr h) (curPageNo h) (curDirtyFlag h) w of
                           None \<Rightarrow> Faults
                         | Some (status3, w1) \<Rightarrow>
                             if status3 \<noteq> OK then Returns (status3, None, h, w1)
                             else
                               (case readPage P (filePtr h) nextPageNo w1 of
                                  None \<Rightarrow> Faults
                                | Some (status4, cp, w2) \<Rightarrow>
                                    if status4 \<noteq> OK then
                                      Returns (status4, None, h\<lparr>curPage := None, curPageNo := -1\<rparr>, w2)
                                    else scanNext_loop_p1 P G n
                                           (h\<lparr>curPage := cp, curPageNo := nextPageNo,
                                              curDirtyFlag := False, curRec := NULLRID\<rparr>) w2)))))"

definition scanNext_p1 ::
  "('db, 'd page) Provider \<Rightarrow> 'd PageLayer \<Rightarrow> nat \<Rightarrow> HeapFile \<Rightarrow> ('db, 'd) world \<Rightarrow>
     (Status \<times> RID option \<times> HeapFile \<times> ('db, 'd) world) outcome" where
  "scanNext_p1 P G n h w =
     (if headerPage h = None then Returns (BADSCANID, None, h, w)
      else if curPage h = None then
        (case frame_page w (headerPage h) of
           None \<Rightarrow> Faults
         | Some hp \<Rightarrow>
             if firstPage (hdr hp) = -1 then Returns (FILEEOF, None, h, w)
             else
               (case readPage P (filePtr h) (firstPage (hdr hp)) w of
                  None \<Rightarrow> Faults
                | Some (status, cp, w1) \<Rightarrow>
                    if status \<noteq> OK then Returns (status, None, h, w1)
                    else
                      (case frame_page w1 (headerPage h) of
                         None \<Rightarrow> Faults
                       | Some hp' \<Rightarrow>
                           scanNext_loop_p1 P G n
                             (h\<lparr>curPage := cp, curPageNo := firstPage (hdr hp'),
                                curDirtyFlag := False, curRec := NULLRID\<rparr>) w1)))
      else scanNext_loop_p1 P G n h w)"

text \<open>
  A sequence of successful \<open>scanNext\<close> calls, the \<open>i\<close>-th with \<open>ns ! i\<close> loop iterations
  allowed: the identifiers returned and the final state, or \<open>None\<close> when a call does not
  return \<open>OK\<close>.
\<close>

fun scan_calls ::
  "('db, 'd page) Provider \<Rightarrow> 'd PageLayer \<Rightarrow> nat list \<Rightarrow> HeapFile \<Rightarrow> ('db, 'd) world \<Rightarrow>
     (RID list \<times> HeapFile \<times> ('db, 'd) world) option" where
  "scan_calls P G [] h w = Some ([], h, w)"
| "scan_calls P G (n # ns) h w =
     (case scanNext P G n h w of
        Returns (OK, Some rid, h', w') \<Rightarrow>
          map_option (\<lambda>(rs, h'', w''). (rid # rs, h'', w'')) (scan_calls P G ns h' w')
      | _ \<Rightarrow> None)"

fun scan_calls_p1 ::
  "('db, 'd page) Provider \<Rightarrow> 'd PageLayer \<Rightarrow> nat list \<Rightarrow> HeapFile \<Rightarrow> ('db, 'd) world \<Rightarrow>
     (RID list \<times> HeapFile \<times> ('db, 'd) world) option" where
  "scan_calls_p1 P G [] h w = Some ([], h, w)"
| "scan_calls_p1 P G (n # ns) h w =
     (case scanNext_p1 P G n h w of
        Returns (OK, Some rid, h', w') \<Rightarrow>
          map_option (\<lambda>(rs, h'', w''). (rid # rs, h'', w'')) (scan_calls_p1 P G ns h' w')
      | _ \<Rightarrow> None)"



subsection \<open>What a reset of a marked scan has to achieve\<close>

text \<open>
  The effect of a successful \<open>resetScan\<close>, as the specification words it: \<open>h0\<close> is the scan
  when the mark was taken, \<open>h\<close> and \<open>w\<close> are the scan and the pool when \<open>resetScan\<close> is
  called, \<open>h'\<close> and \<open>w'\<close> what it leaves. The position is the marked one; when the scan
  has moved to another page, the page it stands on has been unpinned (with the scan's
  dirty flag) and the marked page has been read, which pins it, and is clean; otherwise
  the pool and the current page are untouched.
\<close>

definition reset_restores ::
  "('db, 'd page) Provider \<Rightarrow> HeapFile \<Rightarrow> HeapFile \<Rightarrow> ('db, 'd) world \<Rightarrow>
     HeapFile \<Rightarrow> ('db, 'd) world \<Rightarrow> bool" where
  "reset_restores P h0 h w h' w' =
     (curPageNo h' = curPageNo h0 \<and> curRec h' = curRec h0 \<and>
      (if curPageNo h = curPageNo h0 then curPage h' = curPage h \<and> w' = w
       else
         (case unPinPage (filePtr h) (curPageNo h) (curDirtyFlag h) w of
            Some (OK, w1) \<Rightarrow>
              (case readPage P (filePtr h) (curPageNo h0) w1 of
                 Some (OK, Some fr, w2) \<Rightarrow> w' = w2 \<and> curPage h' = Some fr \<and> \<not> curDirtyFlag h'
               | _ \<Rightarrow> False)
          | _ \<Rightarrow> False)))"

text \<open>The scan stands on a record of its current page.\<close>

definition on_record :: "HeapFile \<Rightarrow> bool" where
  "on_record h = (pgNo (curRec h) = curPageNo h \<and> slotNo (curRec h) \<noteq> -1)"

subsection \<open>Inserting a record\<close>

text \<open>
  The length check casts \<open>rec.length\<close> to \<open>unsigned int\<close> (32 bits), so a negative length
  is a huge one. \<open>PAGESIZE - DPFIXED\<close> is taken as it is (it is between 0 and \<open>2^32\<close> for
  the page layer's constants).
\<close>

definition too_large :: "'d PageLayer \<Rightarrow> Record \<Rightarrow> bool" where
  "too_large G rec = (PAGESIZE G - DPFIXED G < rlength rec mod 2 ^ 32)"

text \<open>
  \<open>InsertFileScan::insertRecord\<close> of stage4. The result carries \<open>outRid\<close> when the
  status is \<open>OK\<close>.
\<close>

definition insertRecord ::
  "('db, 'd page) Provider \<Rightarrow> 'd PageLayer \<Rightarrow> Record \<Rightarrow> HeapFile \<Rightarrow> ('db, 'd) world \<Rightarrow>
     (Status \<times> RID option \<times> HeapFile \<times> ('db, 'd) world) option" where
  "insertRecord P G rec h w =
     (if too_large G rec then Some (INVALIDRECLEN, None, h, w)
      else
        (case (if curPage h = None then
                 (case frame_page w (headerPage h) of
                    None \<Rightarrow> None
                  | Some hp \<Rightarrow>
                      (case readPage P (filePtr h) (lastPage (hdr hp)) w of
                         None \<Rightarrow> None
                       | Some (status, cp, w1) \<Rightarrow>
                           if status \<noteq> OK then Some (status, h\<lparr>curPage := cp\<rparr>, w1)
                           else
                             (case frame_page w1 (headerPage h) of
                                None \<Rightarrow> None
                              | Some hp' \<Rightarrow>
                                  Some (OK, h\<lparr>curPage := cp, curPageNo := lastPage (hdr hp')\<rparr>, w1))))
               else Some (OK, h, w)) of
           None \<Rightarrow> None
         | Some (status, h1, w1) \<Rightarrow>
             if status \<noteq> OK then Some (status, None, h1, w1)
             else
               (case (curPage h1, frame_page w1 (curPage h1)) of
                  (Some fr, Some pg) \<Rightarrow>
                    (case pg_insertRecord G (dat pg) rec of
                       (status2, outRid, d2) \<Rightarrow>
                         let w2 = set_dat fr d2 w1 in
                         if status2 = NOSPACE then
                           (case allocPage P (filePtr h1) w2 of
                              None \<Rightarrow> None
                            | Some (status3, newPageNo, newPage, w3) \<Rightarrow>
                                if status3 \<noteq> OK then Some (status3, None, h1, w3)
                                else
                                  (case (newPage, frame_page w3 newPage, headerPage h1) of
                                     (Some nfr, Some npg, Some hfr) \<Rightarrow>
                                       let w4 = set_dat nfr (pg_init G (dat npg) newPageNo) w3 in
                                       (case frame_page w4 (Some hfr) of
                                          None \<Rightarrow> None
                                        | Some hp4 \<Rightarrow>
                                            let w5 = set_hdr hfr ((hdr hp4)\<lparr>lastPage := newPageNo\<rparr>) w4 in
                                            (case frame_page w5 (Some fr) of
                                               None \<Rightarrow> None
                                             | Some pg5 \<Rightarrow>
                                                 (case pg_setNextPage G (dat pg5) newPageNo of
                                                    (status6, d6) \<Rightarrow>
                                                      let w6 = set_dat fr d6 w5 in
                                                      if status6 \<noteq> OK then Some (status6, None, h1, w6)
                                                      else
                                                        let h6 = h1\<lparr>curDirtyFlag := True\<rparr> in
                                                        (case unPinPage (filePtr h6) (curPageNo h6) True w6 of
                                                           None \<Rightarrow> None
                                                         | Some (unpinstatus, w7) \<Rightarrow>
                                                             if unpinstatus \<noteq> OK
                                                             then Some (unpinstatus, None, h6, w7)
                                                             else
                                                               let h7 = h6\<lparr>curPage := Some nfr,
                                                                          curPageNo := newPageNo\<rparr> in
                                                               (case frame_page w7 (Some hfr) of
                                                                  None \<Rightarrow> None
                                                                | Some hp7 \<Rightarrow>
                                                                    let w8 = set_hdr hfr
                                                                          ((hdr hp7)\<lparr>pageCnt := pageCnt (hdr hp7) + 1,
                                                                                     lastPage := newPageNo\<rparr>) w7 in
                                                                    (case frame_page w8 (Some nfr) of
                                                                       None \<Rightarrow> None
                                                                     | Some pg8 \<Rightarrow>
                                                                         (case pg_insertRecord G (dat pg8) rec of
                                                                            (status9, outRid9, d9) \<Rightarrow>
                                                                              let w9 = set_dat nfr d9 w8 in
                                                                              if status9 \<noteq> OK
                                                                              then Some (status9, None, h7, w9)
                                                                              else
                                                                                (case frame_page w9 (Some hfr) of
                                                                                   None \<Rightarrow> None
                                                                                 | Some hp9 \<Rightarrow>
                                                                                     Some (OK, Some outRid9,
                                                                                       h7\<lparr>hdrDirtyFlag := True,
                                                                                          curDirtyFlag := True,
                                                                                          curRec := outRid9\<rparr>,
                                                                                       set_hdr hfr
                                                                                         ((hdr hp9)\<lparr>recCnt := recCnt (hdr hp9) + 1\<rparr>)
                                                                                         w9)))))))))
                                   | _ \<Rightarrow> None))
                         else if status2 \<noteq> OK then Some (status2, None, h1, w2)
                         else
                           (case frame_page w2 (headerPage h1) of
                              None \<Rightarrow> None
                            | Some hp2 \<Rightarrow>
                                (case headerPage h1 of
                                   None \<Rightarrow> None
                                 | Some hfr \<Rightarrow>
                                     Some (OK, Some outRid,
                                       h1\<lparr>hdrDirtyFlag := True, curDirtyFlag := True, curRec := outRid\<rparr>,
                                       set_hdr hfr ((hdr hp2)\<lparr>recCnt := recCnt (hdr hp2) + 1\<rparr>) w2))))
                | _ \<Rightarrow> None)))"

text \<open>
  \<open>InsertFileScan::insertRecord\<close> of part_001 ends after the length check: control
  reaches the end of a function that must return a \<open>Status\<close>, which is undefined
  behaviour, and nothing is inserted.
\<close>

definition insertRecord_p1 ::
  "('db, 'd page) Provider \<Rightarrow> 'd PageLayer \<Rightarrow> Record \<Rightarrow> HeapFile \<Rightarrow> ('db, 'd) world \<Rightarrow>
     (Status \<times> RID option \<times> HeapFile \<times> ('db, 'd) world) option" where
  "insertRecord_p1 P G rec h w =
     (if too_large G rec then Some (INVALIDRECLEN, None, h, w) else None)"

subsection \<open>Creating a heap file\<close>

text \<open>
  The header as \<open>memset\<close>, \<open>strncpy\<close> and the terminating zero leave it: all fields zero
  and the name cut to fit. stage4 copies \<open>MAXNAMESIZE\<close> bytes and then zeroes the last
  one, part_001 copies \<open>MAXNAMESIZE - 1\<close>: the resulting C string is the same. The name is
  a \<open>std::string\<close> read through \<open>c_str()\<close>, so it ends at its first zero byte.
  (\<open>MAXNAMESIZE\<close> is positive.)
\<close>

definition fresh_header :: "'d PageLayer \<Rightarrow> string \<Rightarrow> FileHdrPage" where
  "fresh_header G name =
     \<lparr>fileName = take (MAXNAMESIZE G - 1) (takeWhile (\<lambda>c. c \<noteq> CHR 0x00) name),
      pageCnt = 0, recCnt = 0, firstPage = 0, lastPage = 0\<rparr>"

text \<open>\<open>createHeapFile\<close> of stage4.\<close>

definition createHeapFile ::
  "('db, 'd page) Provider \<Rightarrow> 'd PageLayer \<Rightarrow> string \<Rightarrow> ('db, 'd) world \<Rightarrow>
     (Status \<times> ('db, 'd) world) option" where
  "createHeapFile P G name w =
     (case db_openFile P (files w) name of
        (status, file0, d1) \<Rightarrow>
          if status = OK then
            (case db_closeFile P d1 file0 of (_, d2) \<Rightarrow> Some (FILEEXISTS, w\<lparr>files := d2\<rparr>))
          else
            (case db_createFile P d1 name of
               (status2, d2) \<Rightarrow>
                 if status2 \<noteq> OK then Some (status2, w\<lparr>files := d2\<rparr>)
                 else
                   (case db_openFile P d2 name of
                      (status3, file3, d3) \<Rightarrow>
                        if status3 \<noteq> OK then Some (status3, w\<lparr>files := d3\<rparr>)
                        else
                          (case allocPage P file3 (w\<lparr>files := d3\<rparr>) of
                             None \<Rightarrow> None
                           | Some (status4, hdrPageNo, newPage, w4) \<Rightarrow>
                               if status4 \<noteq> OK then Some (status4, w4)
                               else
                                 (case newPage of
                                    None \<Rightarrow> None
                                  | Some hfr \<Rightarrow>
                                      if \<not> hfr < length (bufPool w4) then None
                                      else
                                        let w5 = set_hdr hfr (fresh_header G name) w4 in
                                        (case allocPage P file3 w5 of
                                           None \<Rightarrow> None
                                         | Some (status6, newPageNo, newPage6, w6) \<Rightarrow>
                                             if status6 \<noteq> OK then Some (status6, w6)
                                             else
                                               (case (newPage6, frame_page w6 newPage6) of
                                                  (Some dfr, Some dpg) \<Rightarrow>
                                                    let w7 = set_dat dfr (pg_init G (dat dpg) newPageNo) w6 in
                                                    (case frame_page w7 (Some hfr) of
                                                       None \<Rightarrow> None
                                                     | Some hp7 \<Rightarrow>
                                                         let w8 = set_hdr hfr
                                                               ((hdr hp7)\<lparr>pageCnt := 1, recCnt := 0,
                                                                          firstPage := newPageNo,
                                                                          lastPage := newPageNo\<rparr>) w7 in
                                                         (case unPinPage file3 hdrPageNo True w8 of
                                                            None \<Rightarrow> None
                                                          | Some (status9, w9) \<Rightarrow>
                                                              if status9 \<noteq> OK then Some (status9, w9)
                                                              else
                                                                (case unPinPage file3 newPageNo True w9 of
                                                                   None \<Rightarrow> None
                                                                 | Some (status10, w10) \<Rightarrow>
                                                                     if status10 \<noteq> OK then Some (status10, w10)
                                                                     else
                                                                       (case db_closeFile P (files w10) file3 of
                                                                          (status11, d11) \<Rightarrow>
                                                                            Some (status11, w10\<lparr>files := d11\<rparr>)))))
                                                | _ \<Rightarrow> None)))))))"

text \<open>
  \<open>createHeapFile\<close> of part_001: it rejects the empty name, goes on after a failed open
  only when the status is \<open>UNIXERR\<close>, and cleans up on each failure.
\<close>

definition createHeapFile_p1 ::
  "('db, 'd page) Provider \<Rightarrow> 'd PageLayer \<Rightarrow> string \<Rightarrow> ('db, 'd) world \<Rightarrow>
     (Status \<times> ('db, 'd) world) option" where
  "createHeapFile_p1 P G name w =
     (if name = [] then Some (BADFILE, w)
      else
        (case db_openFile P (files w) name of
           (status, file0, d1) \<Rightarrow>
             if status = OK then
               (case db_closeFile P d1 file0 of (_, d2) \<Rightarrow> Some (FILEEXISTS, w\<lparr>files := d2\<rparr>))
             else if status \<noteq> UNIXERR then Some (status, w\<lparr>files := d1\<rparr>)
             else
               (case db_createFile P d1 name of
                  (status2, d2) \<Rightarrow>
                    if status2 \<noteq> OK then Some (status2, w\<lparr>files := d2\<rparr>)
                    else
                      (case db_openFile P d2 name of
                         (status3, file3, d3) \<Rightarrow>
                           if status3 \<noteq> OK then Some (status3, w\<lparr>files := d3\<rparr>)
                           else
                             (case allocPage P file3 (w\<lparr>files := d3\<rparr>) of
                                None \<Rightarrow> None
                              | Some (status4, hdrPageNo, hdrPagePtr, w4) \<Rightarrow>
                                  if status4 \<noteq> OK then
                                    (case db_closeFile P (files w4) file3 of
                                       (_, d5) \<Rightarrow> Some (status4, w4\<lparr>files := d5\<rparr>))
                                  else
                                    (case allocPage P file3 w4 of
                                       None \<Rightarrow> None
                                     | Some (status6, dataPageNo, dataPagePtr, w6) \<Rightarrow>
                                         if status6 \<noteq> OK then
                                           (case unPinPage file3 hdrPageNo False w6 of
                                              None \<Rightarrow> None
                                            | Some (_, w7) \<Rightarrow>
                                                (case db_closeFile P (files w7) file3 of
                                                   (_, d8) \<Rightarrow> Some (status6, w7\<lparr>files := d8\<rparr>)))
                                         else
                                           (case (dataPagePtr, frame_page w6 dataPagePtr, hdrPagePtr) of
                                              (Some dfr, Some dpg, Some hfr) \<Rightarrow>
                                                let w7 = set_dat dfr (pg_init G (dat dpg) dataPageNo) w6 in
                                                if \<not> hfr < length (bufPool w7) then None
                                                else
                                                  let w8 = set_hdr hfr
                                                        ((fresh_header G name)
                                                           \<lparr>pageCnt := 2, recCnt := 0,
                                                            firstPage := dataPageNo,
                                                            lastPage := dataPageNo\<rparr>) w7 in
                                                  (case unPinPage file3 dataPageNo True w8 of
                                                     None \<Rightarrow> None
                                                   | Some (status9, w9) \<Rightarrow>
                                                       if status9 \<noteq> OK then
                                                         (case unPinPage file3 hdrPageNo True w9 of
                                                            None \<Rightarrow> None
                                                          | Some (_, w10) \<Rightarrow>
                                                              (case db_closeFile P (files w10) file3 of
                                                                 (_, d11) \<Rightarrow>
                                                                   Some (status9, w10\<lparr>files := d11\<rparr>)))
                                                       else
                                                         (case unPinPage file3 hdrPageNo True w9 of
                                                            None \<Rightarrow> None
                                                          | Some (status10, w10) \<Rightarrow>
                                                              (case db_closeFile P (files w10) file3 of
                                                                 (status11, d11) \<Rightarrow>
                                                                   Some (if status10 \<noteq> OK then status10
                                                                         else status11,
                                                                         w10\<lparr>files := d11\<rparr>))))
                                            | _ \<Rightarrow> None)))))))"

section \<open>A small DB/File layer for concrete runs\<close>

text \<open>
  An in-memory file layer, used to run the code on concrete inputs: the pages on disk,
  the next page number of each file, and the names of the files that exist (the handle
  of a file is its position in that list, from 1). Pages are numbered from 1; a read or
  a write of a page that does not exist fails. \<open>z\<close> is the content of a fresh page.
\<close>

record 'p demo_db =
  d_pages :: "fileid \<times> int \<Rightarrow> 'p option"
  d_next :: "fileid \<Rightarrow> int"
  d_names :: "string list"

fun index_of :: "string \<Rightarrow> string list \<Rightarrow> nat option" where
  "index_of x [] = None"
| "index_of x (y # ys) = (if x = y then Some 1 else map_option Suc (index_of x ys))"

definition demo_empty :: "'p demo_db" where
  "demo_empty = \<lparr>d_pages = (\<lambda>_. None), d_next = (\<lambda>_. 1), d_names = []\<rparr>"

definition demoP :: "'p \<Rightarrow> ('p demo_db, 'p) Provider" where
  "demoP z =
     \<lparr>f_readPage = (\<lambda>d f p. case d_pages d (f, p) of
                       None \<Rightarrow> (UNIXERR, z, d) | Some c \<Rightarrow> (OK, c, d)),
      f_writePage = (\<lambda>d f p c. case d_pages d (f, p) of
                       None \<Rightarrow> (UNIXERR, d)
                     | Some _ \<Rightarrow> (OK, d\<lparr>d_pages := (d_pages d)((f, p) \<mapsto> c)\<rparr>)),
      f_allocatePage = (\<lambda>d f. (OK, d_next d f,
                         d\<lparr>d_pages := (d_pages d)((f, d_next d f) \<mapsto> z),
                           d_next := (d_next d)(f := d_next d f + 1)\<rparr>)),
      f_disposePage = (\<lambda>d f p. case d_pages d (f, p) of
                       None \<Rightarrow> (UNIXERR, d)
                     | Some _ \<Rightarrow> (OK, d\<lparr>d_pages := (d_pages d)((f, p) := None)\<rparr>)),
      f_getFirstPage = (\<lambda>d f. (OK, if 1 < d_next d f then 1 else -1)),
      db_openFile = (\<lambda>d nm. case index_of nm (d_names d) of
                       None \<Rightarrow> (UNIXERR, None, d) | Some f \<Rightarrow> (OK, Some f, d)),
      db_createFile = (\<lambda>d nm. case index_of nm (d_names d) of
                       None \<Rightarrow> (OK, d\<lparr>d_names := d_names d @ [nm]\<rparr>)
                     | Some _ \<Rightarrow> (FILEEXISTS, d)),
      db_closeFile = (\<lambda>d f. case f of None \<Rightarrow> (BADFILE, d) | Some _ \<Rightarrow> (OK, d)),
      db_destroyFile = (\<lambda>d nm. case index_of nm (d_names d) of
                       None \<Rightarrow> (UNIXERR, d)
                     | Some _ \<Rightarrow> (OK, d\<lparr>d_names := filter (\<lambda>x. x \<noteq> nm) (d_names d)\<rparr>))\<rparr>"

text \<open>
  A pool of two frames, both holding unpinned clean pages of file 1 whose reference bits
  are already clear, with the hand on frame 0.
\<close>

definition two_clean :: "'db \<Rightarrow> ('db, nat) BufMgr" where
  "two_clean d =
     \<lparr>numBufs = 2,
      bufTable =
        [\<lparr>dfile = Some 1, pageNo = 5, frameNo = 0, pinCnt = 0, dirty = False,
          refbit = False, valid = True\<rparr>,
         \<lparr>dfile = Some 1, pageNo = 6, frameNo = 1, pinCnt = 0, dirty = False,
          refbit = False, valid = True\<rparr>],
      bufPool = [50, 60],
      hashTable = [(Some 1, 5) \<mapsto> 0, (Some 1, 6) \<mapsto> 1],
      clockHand = 0,
      files = d\<rparr>"

text \<open>
  A pool of two frames holding pages 1 and 2 of file 1: page 1 in frame 0 is dirty and
  not pinned (the frame holds 11, the disk 10), page 2 in frame 1 is pinned.
  \<open>dirty_then_pinned_after\<close> is that pool once frame 0 has been flushed.
\<close>

definition dirty_then_pinned :: "(nat demo_db, nat) BufMgr" where
  "dirty_then_pinned =
     \<lparr>numBufs = 2,
      bufTable =
        [\<lparr>dfile = Some 1, pageNo = 1, frameNo = 0, pinCnt = 0, dirty = True,
          refbit = False, valid = True\<rparr>,
         \<lparr>dfile = Some 1, pageNo = 2, frameNo = 1, pinCnt = 1, dirty = False,
          refbit = True, valid = True\<rparr>],
      bufPool = [11, 20],
      hashTable = [(Some 1, 1) \<mapsto> 0, (Some 1, 2) \<mapsto> 1],
      clockHand = 0,
      files = \<lparr>d_pages = [(1, 1) \<mapsto> 10, (1, 2) \<mapsto> 20], d_next = (\<lambda>_. 1)(1 := 3),
               d_names = [''t'']\<rparr>\<rparr>"

definition dirty_then_pinned_after :: "(nat demo_db, nat) BufMgr" where
  "dirty_then_pinned_after =
     dirty_then_pinned
       \<lparr>bufTable := (bufTable dirty_then_pinned)[0 := flushed (bufTable dirty_then_pinned ! 0)],
        hashTable := (hashTable dirty_then_pinned)((Some 1, 1) := None),
        files := (files dirty_then_pinned)
                   \<lparr>d_pages := (d_pages (files dirty_then_pinned))((1, 1) \<mapsto> 11)\<rparr>\<rparr>"


text \<open>The same file layer with a disk that refuses every write.\<close>

definition failing_writes :: "'p \<Rightarrow> ('p demo_db, 'p) Provider" where
  "failing_writes z = (demoP z)\<lparr>f_writePage := (\<lambda>d f p c. (UNIXERR, d))\<rparr>"
section \<open>A small page layer for concrete runs\<close>

text \<open>
  A slotted page that holds at most two records, in slots 1 and 2, knows its own page
  number and the number of the next page. Fields are compared as strings of bytes.
\<close>

record demo_page =
  self_no :: int
  next_no :: int
  slots :: "Record list"

definition demo_blank :: demo_page where
  "demo_blank = \<lparr>self_no = 0, next_no = 0, slots = []\<rparr>"

definition demoG :: "demo_page PageLayer" where
  "demoG =
     \<lparr>pg_init = (\<lambda>d n. \<lparr>self_no = n, next_no = -1, slots = []\<rparr>),
      pg_insertRecord = (\<lambda>d rec.
         if 2 \<le> length (slots d) then (NOSPACE, NULLRID, d)
         else (OK, \<lparr>pgNo = self_no d, slotNo = int (length (slots d)) + 1\<rparr>,
               d\<lparr>slots := slots d @ [rec]\<rparr>)),
      pg_getRecord = (\<lambda>d rid.
         if 1 \<le> slotNo rid \<and> slotNo rid \<le> int (length (slots d))
         then (OK, slots d ! nat (slotNo rid - 1))
         else (BADRID, \<lparr>rdata = [], rlength = 0\<rparr>)),
      pg_firstRecord = (\<lambda>d.
         if slots d = [] then (NORECORDS, NULLRID)
         else (OK, \<lparr>pgNo = self_no d, slotNo = 1\<rparr>)),
      pg_nextRecord = (\<lambda>d rid.
         if slotNo rid < int (length (slots d))
         then (OK, \<lparr>pgNo = self_no d, slotNo = slotNo rid + 1\<rparr>)
         else (ENDOFPAGE, NULLRID)),
      pg_getNextPage = (\<lambda>d. (OK, next_no d)),
      pg_setNextPage = (\<lambda>d n. (OK, d\<lparr>next_no := n\<rparr>)),
      fieldDiff = (\<lambda>t rec off len flt.
         if take (nat len) (drop (nat off) (rdata rec)) = flt then DZero else DPos),
      PAGESIZE = 1024,
      DPFIXED = 24,
      MAXNAMESIZE = 50,
      sizeof_int = 4,
      sizeof_float = 4\<rparr>"

text \<open>A blank frame, an object whose members are all zero, and one-byte records.\<close>

definition blank :: "demo_page page" where
  "blank = \<lparr>hdr = \<lparr>fileName = [], pageCnt = 0, recCnt = 0, firstPage = 0, lastPage = 0\<rparr>,
            dat = demo_blank\<rparr>"

definition raw_members :: HeapFile where
  "raw_members =
     \<lparr>filePtr = None, headerPage = None, headerPageNo = 0, hdrDirtyFlag = False,
      curPage = None, curPageNo = 0, curDirtyFlag = False, curRec = \<lparr>pgNo = 0, slotNo = 0\<rparr>,
      s_offset = 0, s_length = 0, s_type = STRING, s_filter = None, s_op = EQ,
      markedPageNo = 0, markedRec = \<lparr>pgNo = 0, slotNo = 0\<rparr>\<rparr>"

definition rec1 :: "string \<Rightarrow> Record" where
  "rec1 x = \<lparr>rdata = x, rlength = int (length x)\<rparr>"

text \<open>
  The concrete file of the runs below: in a pool of five frames over the empty disk,
  stage4's \<open>createHeapFile\<close> creates the file \<open>t\<close>, a heap file object is opened on it
  and five one-byte records \<open>a\<close> to \<open>e\<close> are inserted with stage4's \<open>insertRecord\<close>, two to
  a page. The inserting object stays open. \<open>demo_scan\<close> and \<open>demo_scan_p1\<close> are scan
  objects of the two variants constructed on that file, with the pool they leave.
\<close>

definition demo_file :: "(demo_page page demo_db, demo_page) world" where
  "demo_file =
     (case createHeapFile (demoP blank) demoG ''t'' (BufMgr_init 5 blank demo_empty) of
        Some (_, w) \<Rightarrow> w
      | None \<Rightarrow> BufMgr_init 5 blank demo_empty)"

fun insert_all ::
  "('db, 'd page) Provider \<Rightarrow> 'd PageLayer \<Rightarrow> Record list \<Rightarrow> HeapFile \<Rightarrow> ('db, 'd) world \<Rightarrow>
     HeapFile \<times> ('db, 'd) world" where
  "insert_all P G [] h w = (h, w)"
| "insert_all P G (r # rs) h w =
     (case insertRecord P G r h w of
        Some (_, _, h', w') \<Rightarrow> insert_all P G rs h' w'
      | None \<Rightarrow> (h, w))"

definition demo_loaded :: "HeapFile \<times> (demo_page page demo_db, demo_page) world" where
  "demo_loaded =
     (case HeapFile_ctor (demoP blank) ''t'' raw_members demo_file of
        Some (_, h, w) \<Rightarrow>
          insert_all (demoP blank) demoG
            [rec1 ''a'', rec1 ''b'', rec1 ''c'', rec1 ''d'', rec1 ''e''] h w
      | None \<Rightarrow> (raw_members, demo_file))"

definition demo_scan :: "HeapFile \<times> (demo_page page demo_db, demo_page) world" where
  "demo_scan =
     (case HeapFileScan_ctor (demoP blank) ''t'' raw_members (snd demo_loaded) of
        Some (_, h, w) \<Rightarrow> (h, w)
      | None \<Rightarrow> (raw_members, snd demo_loaded))"

definition demo_scan_p1 :: "HeapFile \<times> (demo_page page demo_db, demo_page) world" where
  "demo_scan_p1 =
     (case HeapFileScan_ctor_p1 (demoP blank) ''t'' raw_members (snd demo_loaded) of
        Some (_, h, w) \<Rightarrow> (h, w)
      | None \<Rightarrow> (raw_members, snd demo_loaded))"

text \<open>
  \<open>scan_steps k\<close> calls \<open>scanNext\<close> \<open>k\<close> times (each call with fuel for ten iterations)
  and returns the identifiers found, in order, with the final state; it stops at the
  first call that does not return \<open>OK\<close>.
\<close>

fun scan_steps ::
  "('db, 'd page) Provider \<Rightarrow> 'd PageLayer \<Rightarrow> nat \<Rightarrow> HeapFile \<Rightarrow> ('db, 'd) world \<Rightarrow>
     RID list \<times> HeapFile \<times> ('db, 'd) world" where
  "scan_steps P G 0 h w = ([], h, w)"
| "scan_steps P G (Suc k) h w =
     (case scanNext P G 10 h w of
        Returns (OK, Some rid, h', w') \<Rightarrow>
          (case scan_steps P G k h' w' of (rs, h'', w'') \<Rightarrow> (rid # rs, h'', w''))
      | _ \<Rightarrow> ([], h, w))"

fun scan_steps_p1 ::
  "('db, 'd page) Provider \<Rightarrow> 'd PageLayer \<Rightarrow> nat \<Rightarrow> HeapFile \<Rightarrow> ('db, 'd) world \<Rightarrow>
     RID list \<times> HeapFile \<times> ('db, 'd) world" where
  "scan_steps_p1 P G 0 h w = ([], h, w)"
| "scan_steps_p1 P G (Suc k) h w =
     (case scanNext_p1 P G 10 h w of
        Returns (OK, Some rid, h', w') \<Rightarrow>
          (case scan_steps_p1 P G k h' w' of (rs, h'', w'') \<Rightarrow> (rid # rs, h'', w''))
      | _ \<Rightarrow> ([], h, w))"

text \<open>
  A disk with one file \<open>t\<close> whose header page (page 1) names page 7 as the first data
  page, and no page 7.
\<close>

definition broken_db :: "demo_page page demo_db" where
  "broken_db =
     \<lparr>d_pages = [(1, 1) \<mapsto> blank\<lparr>hdr := \<lparr>fileName = ''t'', pageCnt = 1, recCnt = 0,
                                           firstPage = 7, lastPage = 7\<rparr>\<rparr>],
      d_next = (\<lambda>_. 1)(1 := 2),
      d_names = [''t'']\<rparr>"




text \<open>
  The same file with ten records \<open>a\<close> to \<open>j\<close> in pages 2 to 6, and a scan of each variant
  on it: \<open>ten_at k\<close> is the scan after \<open>k\<close> successful calls of \<open>scanNext\<close>, \<open>ten_adv k m\<close>
  the scan marked there and advanced by \<open>m\<close> more calls, \<open>ten_reset k m\<close> that scan after
  \<open>resetScan\<close>.
\<close>

definition ten_loaded :: "HeapFile \<times> (demo_page page demo_db, demo_page) world" where
  "ten_loaded =
     (case HeapFile_ctor (demoP blank) ''t'' raw_members demo_file of
        Some (_, h, w) \<Rightarrow>
          insert_all (demoP blank) demoG
            [rec1 ''a'', rec1 ''b'', rec1 ''c'', rec1 ''d'', rec1 ''e'',
             rec1 ''f'', rec1 ''g'', rec1 ''h'', rec1 ''i'', rec1 ''j''] h w
      | None \<Rightarrow> (raw_members, demo_file))"

definition ten_at :: "nat \<Rightarrow> HeapFile \<times> (demo_page page demo_db, demo_page) world" where
  "ten_at k =
     (case HeapFileScan_ctor (demoP blank) ''t'' raw_members (snd ten_loaded) of
        Some (_, h, w) \<Rightarrow>
          (case scan_calls (demoP blank) demoG (replicate k 10) h w of
             Some (_, h', w') \<Rightarrow> (h', w')
           | None \<Rightarrow> (h, w))
      | None \<Rightarrow> (raw_members, snd ten_loaded))"

definition ten_adv :: "nat \<Rightarrow> nat \<Rightarrow> HeapFile \<times> (demo_page page demo_db, demo_page) world" where
  "ten_adv k m =
     (case scan_calls (demoP blank) demoG (replicate m 10)
             (snd (markScan (fst (ten_at k)))) (snd (ten_at k)) of
        Some (_, h, w) \<Rightarrow> (h, w)
      | None \<Rightarrow> ten_at k)"

definition ten_reset :: "nat \<Rightarrow> nat \<Rightarrow> HeapFile \<times> (demo_page page demo_db, demo_page) world" where
  "ten_reset k m =
     (case resetScan (demoP blank) (fst (ten_adv k m)) (snd (ten_adv k m)) of
        Some (_, h, w) \<Rightarrow> (h, w)
      | None \<Rightarrow> ten_adv k m)"

definition ten_at_p1 :: "nat \<Rightarrow> HeapFile \<times> (demo_page page demo_db, demo_page) world" where
  "ten_at_p1 k =
     (case HeapFileScan_ctor_p1 (demoP blank) ''t'' raw_members (snd ten_loaded) of
        Some (_, h, w) \<Rightarrow>
          (case scan_calls_p1 (demoP blank) demoG (replicate k 10) h w of
             Some (_, h', w') \<Rightarrow> (h', w')
           | None \<Rightarrow> (h, w))
      | None \<Rightarrow> (raw_members, snd ten_loaded))"

definition ten_adv_p1 :: "nat \<Rightarrow> nat \<Rightarrow> HeapFile \<times> (demo_page page demo_db, demo_page) world" where
  "ten_adv_p1 k m =
     (case scan_calls_p1 (demoP blank) demoG (replicate m 10)
             (snd (markScan_p1 (fst (ten_at_p1 k)))) (snd (ten_at_p1 k)) of
        Some (_, h, w) \<Rightarrow> (h, w)
      | None \<Rightarrow> ten_at_p1 k)"

definition ten_reset_p1 :: "nat \<Rightarrow> nat \<Rightarrow> HeapFile \<times> (demo_page page demo_db, demo_page) world" where
  "ten_reset_p1 k m =
     (case resetScan_p1 (demoP blank) (fst (ten_adv_p1 k m)) (snd (ten_adv_p1 k m)) of
        Some (_, h, w) \<Rightarrow> (h, w)
      | None \<Rightarrow> ten_adv_p1 k m)"
section \<open>The clock step\<close>

lemma frozen_refl: "frozen s s"
  by (simp add: frozen_def pinned_def)

lemma frozen_trans: "frozen s s1 \<Longrightarrow> frozen s1 s2 \<Longrightarrow> frozen s s2"
  unfolding frozen_def pinned_def by metis

lemma frozen_keeps: "frozen s s' \<Longrightarrow> keeps s s'"
  by (simp add: frozen_def keeps_def)

text \<open>The six outcomes of one clock step.\<close>

lemma allocBuf_step_cases:
  assumes "allocBuf_step P s = Some r"
  obtains
    (Invalid) "clockHand s < length (bufTable s)" "\<not> valid (bufTable s ! clockHand s)"
       "r = Chosen OK (Some (clockHand s)) (advanceClock s)"
  | (Ref) "clockHand s < length (bufTable s)" "valid (bufTable s ! clockHand s)"
       "refbit (bufTable s ! clockHand s)"
       "r = Continue (advanceClock (s\<lparr>bufTable := (bufTable s)
              [clockHand s := (bufTable s ! clockHand s)\<lparr>refbit := False\<rparr>]\<rparr>))"
  | (Pinned) "clockHand s < length (bufTable s)" "valid (bufTable s ! clockHand s)"
       "\<not> refbit (bufTable s ! clockHand s)" "pinCnt (bufTable s ! clockHand s) \<noteq> 0"
       "r = Continue (advanceClock s)"
  | (WriteFail) d' where "clockHand s < length (bufTable s)" "valid (bufTable s ! clockHand s)"
       "\<not> refbit (bufTable s ! clockHand s)" "pinCnt (bufTable s ! clockHand s) = 0"
       "dirty (bufTable s ! clockHand s)"
       "r = Chosen UNIXERR None (s\<lparr>files := d'\<rparr>)"
  | (RemoveFail) d' where "clockHand s < length (bufTable s)" "valid (bufTable s ! clockHand s)"
       "\<not> refbit (bufTable s ! clockHand s)" "pinCnt (bufTable s ! clockHand s) = 0"
       "hashTable s (dfile (bufTable s ! clockHand s), pageNo (bufTable s ! clockHand s)) = None"
       "r = Chosen HASHTBLERROR None (s\<lparr>files := d'\<rparr>)"
  | (Victim) d' where "clockHand s < length (bufTable s)" "valid (bufTable s ! clockHand s)"
       "\<not> refbit (bufTable s ! clockHand s)" "pinCnt (bufTable s ! clockHand s) = 0"
       "hashTable s (dfile (bufTable s ! clockHand s), pageNo (bufTable s ! clockHand s)) \<noteq> None"
       "r = Chosen OK (Some (clockHand s))
              (s\<lparr>bufTable := (bufTable s)[clockHand s := Clear (bufTable s ! clockHand s)],
                 hashTable := (hashTable s)((dfile (bufTable s ! clockHand s),
                                              pageNo (bufTable s ! clockHand s)) := None),
                 files := d'\<rparr>)"
proof -
  have eq: "s\<lparr>files := files s\<rparr> = s" by simp
  show ?thesis
    using assms RemoveFail[of "files s"] Victim[of "files s"]
    by (auto simp: allocBuf_step_def Let_def ht_remove_def
             intro: Invalid Ref Pinned WriteFail RemoveFail Victim
             split: if_splits option.splits prod.splits)
qed

text \<open>The invariant depends on the state through its fields only.\<close>

lemma Inv_same:
  assumes "Inv s" "numBufs s' = numBufs s" "bufTable s' = bufTable s"
    "length (bufPool s') = length (bufPool s)" "hashTable s' = hashTable s"
    "clockHand s' < numBufs s \<or> clockHand s' = clockHand s"
  shows "Inv s'"
  using assms by (auto simp: Inv_def wf_pool_def desc_ok_def hash_ok_def)

lemma Inv_pinCnt:
  assumes "Inv s" "h < length (bufTable s)"
  shows "0 \<le> pinCnt (bufTable s ! h)"
proof -
  have "desc_ok s" using assms(1) by (simp add: Inv_def)
  from this[unfolded desc_ok_def, rule_format, OF assms(2)] show ?thesis
    by (cases "valid (bufTable s ! h)") simp_all
qed

lemma Inv_invalid:
  assumes "Inv s" "h < length (bufTable s)" "\<not> valid (bufTable s ! h)"
  shows "pinCnt (bufTable s ! h) = 0"
proof -
  have "desc_ok s" using assms(1) by (simp add: Inv_def)
  from this[unfolded desc_ok_def, rule_format, OF assms(2)] assms(3) show ?thesis by simp
qed

lemma Inv_hash:
  assumes "Inv s" "hashTable s (f, p) = Some h"
  shows "h < length (bufTable s) \<and> valid (bufTable s ! h) \<and>
     dfile (bufTable s ! h) = f \<and> pageNo (bufTable s ! h) = p"
proof -
  have "hash_ok s" using assms(1) by (simp add: Inv_def)
  from this[unfolded hash_ok_def, rule_format, OF assms(2)] show ?thesis by simp
qed

text \<open>Changing a frame's reference bit, dirty bit or pin count.\<close>

lemma touch_Inv:
  assumes "Inv s" "h < length (bufTable s)"
    "valid d' = valid (bufTable s ! h)" "dfile d' = dfile (bufTable s ! h)"
    "pageNo d' = pageNo (bufTable s ! h)"
    "valid d' \<longrightarrow> 0 \<le> pinCnt d'" "\<not> valid d' \<longrightarrow> pinCnt d' = 0"
    "numBufs s' = numBufs s" "length (bufPool s') = length (bufPool s)"
    "clockHand s' = clockHand s"
    "bufTable s' = (bufTable s)[h := d']" "hashTable s' = hashTable s"
  shows "Inv s'"
proof -
  have d: "desc_ok s" and hk: "hash_ok s" and w: "wf_pool s"
    using assms(1) by (simp_all add: Inv_def)
  have "desc_ok s'"
    using d assms(2-7) unfolding desc_ok_def assms(11,12)
    by (auto simp: nth_list_update)
  moreover have "hash_ok s'"
    using hk assms(2-5) unfolding hash_ok_def assms(11,12)
    by (auto simp: nth_list_update)
  moreover have "wf_pool s'"
    using w assms(8-11) by (simp add: wf_pool_def)
  ultimately show ?thesis by (simp add: Inv_def)
qed

text \<open>Installing a page in an invalid frame (\<open>Set\<close> and the hash insert).\<close>

lemma install_Inv:
  assumes "Inv s" "h < length (bufTable s)" "\<not> valid (bufTable s ! h)"
    "hashTable s (Some fl, p) = None"
    "numBufs s' = numBufs s" "length (bufPool s') = length (bufPool s)"
    "clockHand s' = clockHand s"
    "bufTable s' = (bufTable s)[h := Set (Some fl) p (bufTable s ! h)]"
    "hashTable s' = (hashTable s)((Some fl, p) \<mapsto> h)"
  shows "Inv s'"
proof -
  have d: "desc_ok s" and hk: "hash_ok s" and w: "wf_pool s"
    using assms(1) by (simp_all add: Inv_def)
  have 1: "\<And>i. i < length (bufTable s) \<Longrightarrow> valid (bufTable s ! i) \<Longrightarrow>
      (dfile (bufTable s ! i), pageNo (bufTable s ! i)) \<noteq> (Some fl, p)"
    using d assms(4) unfolding desc_ok_def by (metis option.distinct(1))
  have "desc_ok s'"
    using d 1 assms(2,3) unfolding desc_ok_def assms(8,9)
    by (auto simp: nth_list_update Set_def)
  moreover have "hash_ok s'"
    using hk assms(2,3) unfolding hash_ok_def assms(8,9)
    by (auto simp: nth_list_update Set_def)
  moreover have "wf_pool s'"
    using w assms(5,6,7,8) by (simp add: wf_pool_def)
  ultimately show ?thesis by (simp add: Inv_def)
qed

text \<open>Dropping a resident frame: what eviction, disposal and flushing do to the tables.\<close>

lemma drop_Inv:
  assumes "Inv s" "h < length (bufTable s)" "valid (bufTable s ! h)"
    "\<not> valid d'" "pinCnt d' = 0"
    "numBufs s' = numBufs s" "length (bufPool s') = length (bufPool s)"
    "clockHand s' = clockHand s"
    "bufTable s' = (bufTable s)[h := d']"
    "hashTable s' = (hashTable s)((dfile (bufTable s ! h), pageNo (bufTable s ! h)) := None)"
  shows "Inv s'"
proof -
  let ?k = "(dfile (bufTable s ! h), pageNo (bufTable s ! h))"
  have d: "desc_ok s" and hk: "hash_ok s" and w: "wf_pool s"
    using assms(1) by (simp_all add: Inv_def)
  have 1: "\<And>i. i < length (bufTable s) \<Longrightarrow> i \<noteq> h \<Longrightarrow> valid (bufTable s ! i) \<Longrightarrow>
        (dfile (bufTable s ! i), pageNo (bufTable s ! i)) \<noteq> ?k"
    using d assms(2,3) unfolding desc_ok_def by (metis option.inject)
  have 2: "\<And>k i. k \<noteq> ?k \<Longrightarrow> hashTable s k = Some i \<Longrightarrow> i \<noteq> h"
    using hk unfolding hash_ok_def by (metis prod.collapse)
  have "desc_ok s'"
    using d 1 assms(2,4,5) unfolding desc_ok_def assms(9,10)
    by (auto simp add: nth_list_update)
  moreover have "hash_ok s'"
    unfolding hash_ok_def
  proof (intro allI impI)
    fix k i
    assume "hashTable s' k = Some i"
    then have kk: "k \<noteq> ?k" and hs: "hashTable s k = Some i"
      unfolding assms(10) by (auto split: if_splits)
    from 2[OF kk hs] have "i \<noteq> h" .
    moreover from hk hs have "i < length (bufTable s) \<and> valid (bufTable s ! i) \<and>
        dfile (bufTable s ! i) = fst k \<and> pageNo (bufTable s ! i) = snd k"
      unfolding hash_ok_def by blast
    ultimately show "i < length (bufTable s') \<and> valid (bufTable s' ! i) \<and>
        dfile (bufTable s' ! i) = fst k \<and> pageNo (bufTable s' ! i) = snd k"
      unfolding assms(9) by simp
  qed
  moreover have "wf_pool s'"
    using w assms(6,7,8,9) by (simp add: wf_pool_def)
  ultimately show ?thesis by (simp add: Inv_def)
qed

lemma Inv_advance:
  assumes "Inv s" "clockHand s < length (bufTable s)"
  shows "Inv (advanceClock s)"
proof (rule Inv_same[OF assms(1)])
  show "clockHand (advanceClock s) < numBufs s \<or> clockHand (advanceClock s) = clockHand s"
    using assms by (auto simp: advanceClock_def Inv_def wf_pool_def)
qed (simp_all add: advanceClock_def)

lemma step_Inv:
  assumes "Inv s" "allocBuf_step P s = Some r"
  shows "case r of Continue s' \<Rightarrow> Inv s' | Chosen st fr s' \<Rightarrow> Inv s'"
  using assms(2)
proof (cases rule: allocBuf_step_cases)
  case Invalid
  then show ?thesis using Inv_advance[OF assms(1)] by simp
next
  case Ref
  let ?s1 = "s\<lparr>bufTable := (bufTable s)[clockHand s := (bufTable s ! clockHand s)\<lparr>refbit := False\<rparr>]\<rparr>"
  have "Inv ?s1"
    by (rule touch_Inv[OF assms(1) Ref(1)])
       (use Ref(1,2) Inv_pinCnt[OF assms(1) Ref(1)] in auto)
  then have "Inv (advanceClock ?s1)"
    by (rule Inv_advance) (use Ref(1) in simp)
  then show ?thesis using Ref by simp
next
  case Pinned
  then show ?thesis using Inv_advance[OF assms(1)] by simp
next
  case (WriteFail d')
  have "Inv (s\<lparr>files := d'\<rparr>)" by (rule Inv_same[OF assms(1)]) simp_all
  then show ?thesis using WriteFail by simp
next
  case (RemoveFail d')
  have "Inv (s\<lparr>files := d'\<rparr>)" by (rule Inv_same[OF assms(1)]) simp_all
  then show ?thesis using RemoveFail by simp
next
  case (Victim d')
  have "Inv (s\<lparr>bufTable := (bufTable s)[clockHand s := Clear (bufTable s ! clockHand s)],
                 hashTable := (hashTable s)((dfile (bufTable s ! clockHand s),
                                              pageNo (bufTable s ! clockHand s)) := None),
                 files := d'\<rparr>)"
    by (rule drop_Inv[OF assms(1) Victim(1,2), of "Clear (bufTable s ! clockHand s)"])
       (simp_all add: Clear_def)
  then show ?thesis using Victim by simp
qed

lemma step_frozen:
  assumes "allocBuf_step P s = Some r"
  shows "case r of Continue s' \<Rightarrow> frozen s s' | Chosen st fr s' \<Rightarrow> frozen s s'"
  using assms
  by (cases rule: allocBuf_step_cases)
     (auto simp: frozen_def pinned_def advanceClock_def nth_list_update)

lemma step_chosen_frame:
  assumes "allocBuf_step P s = Some (Chosen st fr s')"
  shows "(st = OK \<longrightarrow> fr = Some (clockHand s) \<and> clockHand s < length (bufTable s') \<and>
            \<not> valid (bufTable s' ! clockHand s)) \<and> (st \<noteq> OK \<longrightarrow> fr = None) \<and>
         st \<in> {OK, UNIXERR, HASHTBLERROR}"
  using assms
  by (cases rule: allocBuf_step_cases) (auto simp: advanceClock_def Clear_def)

lemma loop_Inv:
  "Inv s \<Longrightarrow> allocBuf_loop P n s = Some (st, fr, s') \<Longrightarrow>
     Inv s' \<and> frozen s s' \<and>
     (st = OK \<longrightarrow> (\<exists>h. fr = Some h \<and> h < length (bufTable s') \<and> \<not> valid (bufTable s' ! h))) \<and>
     (st \<noteq> OK \<longrightarrow> fr = None) \<and> st \<in> {OK, UNIXERR, HASHTBLERROR, BUFFEREXCEEDED}"
proof (induction n arbitrary: s)
  case 0
  then show ?case by (simp add: frozen_refl)
next
  case (Suc n)
  from Suc.prems(2) obtain r where r: "allocBuf_step P s = Some r"
    by (auto split: option.splits)
  show ?case
  proof (cases r)
    case (Continue s1)
    with r Suc.prems(2) have l: "allocBuf_loop P n s1 = Some (st, fr, s')" by simp
    from step_Inv[OF Suc.prems(1) r] Continue have i1: "Inv s1" by simp
    from step_frozen[OF r] Continue have f1: "frozen s s1" by simp
    from Suc.IH[OF i1 l] f1 show ?thesis by (auto intro: frozen_trans)
  next
    case (Chosen st1 fr1 s1)
    with r Suc.prems(2) have e: "st1 = st" "fr1 = fr" "s1 = s'" by simp_all
    from step_Inv[OF Suc.prems(1) r] step_frozen[OF r] Chosen e
    have "Inv s'" "frozen s s'" by simp_all
    moreover from step_chosen_frame[of P s st fr s'] r Chosen e
    have "(st = OK \<longrightarrow> fr = Some (clockHand s) \<and> clockHand s < length (bufTable s') \<and>
            \<not> valid (bufTable s' ! clockHand s)) \<and> (st \<noteq> OK \<longrightarrow> fr = None) \<and>
         st \<in> {OK, UNIXERR, HASHTBLERROR}" by simp
    ultimately show ?thesis by auto
  qed
qed

lemma allocBuf_Inv:
  "Inv s \<Longrightarrow> allocBuf P s = Some (st, fr, s') \<Longrightarrow>
     Inv s' \<and> frozen s s' \<and>
     (st = OK \<longrightarrow> (\<exists>h. fr = Some h \<and> h < length (bufTable s') \<and> \<not> valid (bufTable s' ! h))) \<and>
     (st \<noteq> OK \<longrightarrow> fr = None) \<and> st \<in> {OK, UNIXERR, HASHTBLERROR, BUFFEREXCEEDED}"
  unfolding allocBuf_def by (rule loop_Inv)

section \<open>The interface operations keep the invariant and the pinned frames\<close>

lemma readPage_Inv:
  assumes "Inv s" "readPage P f p s = Some (st, pg, s')"
  shows "Inv s' \<and> keeps s s'"
proof (cases "hashTable s (f, p)")
  case (Some fno)
  note fn = Inv_hash[OF assms(1) Some]
  let ?d = "bufTable s ! fno"
  have s': "s' = s\<lparr>bufTable := (bufTable s)[fno := ?d\<lparr>pinCnt := pinCnt ?d + 1, refbit := True\<rparr>]\<rparr>"
    using assms(2) Some fn by (simp add: readPage_def ht_lookup_def Let_def)
  have "Inv s'"
    by (rule touch_Inv[OF assms(1), of fno "?d\<lparr>pinCnt := pinCnt ?d + 1, refbit := True\<rparr>"])
       (use fn Inv_pinCnt[OF assms(1), of fno] s' in auto)
  moreover have "keeps s s'"
    using s' fn by (auto simp: keeps_def pinned_def nth_list_update)
  ultimately show ?thesis by simp
next
  case None
  from assms(2) None obtain st1 fr s1 where a: "allocBuf P s = Some (st1, fr, s1)"
    by (auto simp: readPage_def ht_lookup_def split: option.splits)
  note A = allocBuf_Inv[OF assms(1) a]
  have fz: "frozen s s1" using A by simp
  have i1: "Inv s1" using A by simp
  show ?thesis
  proof (cases "st1 = BUFFEREXCEEDED")
    case True
    then have "s' = s1" using assms(2) None a by (simp add: readPage_def ht_lookup_def)
    then show ?thesis using A by (simp add: frozen_keeps)
  next
    case False
    then obtain h fl where h: "fr = Some h" "f = Some fl" "h < length (bufPool s1)"
      using assms(2) None a
      by (auto simp: readPage_def ht_lookup_def split: option.splits if_splits)
    with A have stOK: "st1 = OK" and hv: "h < length (bufTable s1)" "\<not> valid (bufTable s1 ! h)"
      by auto
    obtain rst pc d' where rd: "f_readPage P (files s1) fl p = (rst, pc, d')"
      by (cases "f_readPage P (files s1) fl p") auto
    define s2 where "s2 = s1\<lparr>bufPool := (bufPool s1)[h := pc], files := d'\<rparr>"
    have i2: "Inv s2" by (rule Inv_same[OF i1]) (simp_all add: s2_def)
    have np: "\<And>i. pinned s i \<Longrightarrow> h \<noteq> i" using fz hv by (auto simp: frozen_def)
    have k2: "keeps s s2" using fz np unfolding s2_def
      by (auto simp: frozen_def keeps_def)
    show ?thesis
    proof (cases "rst = OK \<and> hashTable s2 (Some fl, p) = None")
      case False
      then have "s' = s2"
        using assms(2) None a h rd stOK
        by (auto simp: readPage_def ht_lookup_def ht_insert_def s2_def Let_def
                 split: option.splits if_splits)
      then show ?thesis using i2 k2 by simp
    next
      case True
      have h2: "h < length (bufTable s2)" "\<not> valid (bufTable s2 ! h)"
        using hv by (simp_all add: s2_def)
      have s': "s' = s2\<lparr>bufTable := (bufTable s2)[h := Set (Some fl) p (bufTable s2 ! h)],
                        hashTable := (hashTable s2)((Some fl, p) \<mapsto> h)\<rparr>"
        using assms(2) None a h rd stOK True hv
        by (auto simp: readPage_def ht_lookup_def ht_insert_def s2_def Let_def
                 split: option.splits if_splits)
      have "Inv s'"
        by (rule install_Inv[OF i2 h2, of fl p]) (use True s' in simp_all)
      moreover have "keeps s s'" using k2 np unfolding s' keeps_def by auto
      ultimately show ?thesis by simp
    qed
  qed
qed

lemma unPinPage_Inv:
  assumes "Inv s" "unPinPage f p dty s = Some (st, s')"
  shows "Inv s' \<and> keeps s s'"
proof (cases "hashTable s (f, p)")
  case None
  then have "s' = s" using assms(2) by (simp add: unPinPage_def ht_lookup_def)
  then show ?thesis using assms(1) by (simp add: keeps_def pinned_def)
next
  case (Some fno)
  note fn = Inv_hash[OF assms(1) Some]
  let ?d = "bufTable s ! fno"
  show ?thesis
  proof (cases "pinCnt ?d = 0")
    case True
    then have "s' = s" using assms(2) Some fn by (simp add: unPinPage_def ht_lookup_def)
    then show ?thesis using assms(1) by (simp add: keeps_def pinned_def)
  next
    case False
    then have s': "s' = s\<lparr>bufTable := (bufTable s)[fno := ?d
        \<lparr>pinCnt := pinCnt ?d - 1, dirty := (dirty ?d \<or> dty)\<rparr>]\<rparr>"
      using assms(2) Some fn by (simp add: unPinPage_def ht_lookup_def Let_def)
    have "Inv s'"
      by (rule touch_Inv[OF assms(1), of fno "?d\<lparr>pinCnt := pinCnt ?d - 1, dirty := (dirty ?d \<or> dty)\<rparr>"])
         (use fn Inv_pinCnt[OF assms(1), of fno] False s' in auto)
    moreover have "keeps s s'"
      using s' fn by (auto simp: keeps_def pinned_def nth_list_update)
    ultimately show ?thesis by simp
  qed
qed

lemma allocPage_Inv:
  assumes "Inv s" "allocPage P f s = Some (st, pn, pg, s')"
  shows "Inv s' \<and> keeps s s'"
proof -
  from assms(2) obtain fl where f: "f = Some fl"
    by (auto simp: allocPage_def split: option.splits)
  obtain err pgNo d' where ap: "f_allocatePage P (files s) fl = (err, pgNo, d')"
    by (cases "f_allocatePage P (files s) fl") auto
  define s0 where "s0 = s\<lparr>files := d'\<rparr>"
  have i0: "Inv s0" by (rule Inv_same[OF assms(1)]) (simp_all add: s0_def)
  have f0: "frozen s s0" by (simp add: s0_def frozen_def pinned_def)
  show ?thesis
  proof (cases "err = OK")
    case False
    then have "s' = s0" using assms(2) f ap by (simp add: allocPage_def s0_def)
    then show ?thesis using i0 f0 by (simp add: frozen_keeps)
  next
    case True
    then obtain st1 fr s1 where a: "allocBuf P s0 = Some (st1, fr, s1)"
      using assms(2) f ap by (auto simp: allocPage_def s0_def split: option.splits)
    note A = allocBuf_Inv[OF i0 a]
    have i1: "Inv s1" using A by simp
    have fz: "frozen s s1" using f0 A by (blast intro: frozen_trans)
    show ?thesis
    proof (cases "st1 = OK")
      case False
      then have "s' = s1" using assms(2) f ap True a by (simp add: allocPage_def s0_def)
      then show ?thesis using A fz by (simp add: frozen_keeps)
    next
      case stOK: True
      then obtain h where h: "fr = Some h" and hv: "h < length (bufTable s1)" "\<not> valid (bufTable s1 ! h)"
        using A by auto
      have np: "\<And>i. pinned s i \<Longrightarrow> h \<noteq> i" using fz hv by (auto simp: frozen_def)
      show ?thesis
      proof (cases "hashTable s1 (Some fl, pgNo) = None")
        case False
        then have "s' = s1" using assms(2) f ap True a stOK h
          by (auto simp: allocPage_def s0_def ht_insert_def)
        then show ?thesis using A fz by (simp add: frozen_keeps)
      next
        case hn: True
        have s': "s' = s1\<lparr>bufTable := (bufTable s1)[h := Set (Some fl) pgNo (bufTable s1 ! h)],
                          hashTable := (hashTable s1)((Some fl, pgNo) \<mapsto> h)\<rparr>"
          using assms(2) f ap True a stOK h hv hn
          by (auto simp: allocPage_def s0_def ht_insert_def)
        have "Inv s'"
          by (rule install_Inv[OF i1 hv, of fl pgNo]) (use hn s' in simp_all)
        moreover have "keeps s s'" using fz np unfolding s' keeps_def frozen_def by auto
        ultimately show ?thesis by simp
      qed
    qed
  qed
qed

lemma disposePage_Inv:
  assumes "Inv s" "disposePage P f p s = Some (st, s')" "legal s (DisposePage f p)"
  shows "Inv s' \<and> keeps s s'"
proof -
  from assms(2) obtain fl where f: "f = Some fl"
    by (auto simp: disposePage_def Let_def split: prod.splits if_splits option.splits)
  obtain dst d' where dp: "f_disposePage P (files s) fl p = (dst, d')"
    by (cases "f_disposePage P (files s) fl p") auto
  show ?thesis
  proof (cases "hashTable s (f, p)")
    case None
    then have s': "s' = s\<lparr>hashTable := hashTable s, files := d'\<rparr>"
      using assms(2) f dp by (simp add: disposePage_def ht_lookup_def ht_remove_def Let_def)
    have "Inv s'" by (rule Inv_same[OF assms(1)]) (simp_all add: s')
    then show ?thesis by (simp add: s' keeps_def pinned_def)
  next
    case (Some h)
    note fn = Inv_hash[OF assms(1) Some]
    have np: "pinCnt (bufTable s ! h) \<le> 0" using assms(3) Some by simp
    have s': "s' = s\<lparr>bufTable := (bufTable s)[h := Clear (bufTable s ! h)],
                      hashTable := (hashTable s)((f, p) := None), files := d'\<rparr>"
      using assms(2) f dp Some fn
      by (simp add: disposePage_def ht_lookup_def ht_remove_def Let_def)
    have "Inv s'"
      by (rule drop_Inv[OF assms(1), of h "Clear (bufTable s ! h)"])
         (use fn s' in \<open>simp_all add: Clear_def\<close>)
    moreover have "keeps s s'"
      using fn np unfolding s' keeps_def pinned_def by (auto simp: nth_list_update)
    ultimately show ?thesis by simp
  qed
qed

section \<open>Flushing a file\<close>

lemma ht_remove_snd: "snd (ht_remove h g k) = h((g, k) := None)"
  by (auto simp: ht_remove_def split: option.splits)

text \<open>The outcomes of the loop body of \<open>flushFile\<close> at frame \<open>i\<close>.\<close>

lemma flushFile_step_cases:
  assumes "flushFile_step P f i s = Some r"
  obtains
    (Pinned) "i < length (bufTable s)" "valid (bufTable s ! i)" "dfile (bufTable s ! i) = f"
       "0 < pinCnt (bufTable s ! i)" "r = Return PAGEPINNED s"
  | (WriteFail) fl st d' where "i < length (bufTable s)" "valid (bufTable s ! i)"
       "dfile (bufTable s ! i) = f" "\<not> 0 < pinCnt (bufTable s ! i)" "dirty (bufTable s ! i)"
       "f = Some fl" "i < length (bufPool s)"
       "f_writePage P (files s) fl (pageNo (bufTable s ! i)) (bufPool s ! i) = (st, d')"
       "st \<noteq> OK" "r = Return st (s\<lparr>files := d'\<rparr>)"
  | (Flushed) d' where "i < length (bufTable s)" "valid (bufTable s ! i)"
       "dfile (bufTable s ! i) = f" "\<not> 0 < pinCnt (bufTable s ! i)"
       "if dirty (bufTable s ! i)
        then \<exists>fl. f = Some fl \<and> i < length (bufPool s) \<and>
             f_writePage P (files s) fl (pageNo (bufTable s ! i)) (bufPool s ! i) = (OK, d')
        else d' = files s"
       "r = Next (s\<lparr>bufTable := (bufTable s)
                      [i := (bufTable s ! i)\<lparr>dfile := None, pageNo := -1, dirty := False,
                                             valid := False\<rparr>],
                    hashTable := (hashTable s)((f, pageNo (bufTable s ! i)) := None),
                    files := d'\<rparr>)"
  | (Bad) "i < length (bufTable s)" "\<not> valid (bufTable s ! i)" "dfile (bufTable s ! i) = f"
       "r = Return BADBUFFER s"
  | (Other) "i < length (bufTable s)" "dfile (bufTable s ! i) \<noteq> f" "r = Next s"
  using assms Flushed[of "files s"]
  by (auto simp: flushFile_step_def Let_def ht_remove_snd
           intro: Pinned WriteFail Flushed Bad Other
           split: if_splits option.splits prod.splits)

lemma flushFile_step_Inv:
  assumes "Inv s" "flushFile_step P f i s = Some r"
  shows "case r of Next s' \<Rightarrow> Inv s' \<and> frozen s s' | Return st s' \<Rightarrow> Inv s' \<and> frozen s s'"
  using assms(2)
proof (cases rule: flushFile_step_cases)
  case Pinned
  then show ?thesis using assms(1) by (simp add: frozen_refl)
next
  case (WriteFail fl st d')
  have "Inv (s\<lparr>files := d'\<rparr>)" by (rule Inv_same[OF assms(1)]) simp_all
  then show ?thesis using WriteFail by (simp add: frozen_def pinned_def)
next
  case (Flushed d')
  let ?d = "(bufTable s ! i)\<lparr>dfile := None, pageNo := -1, dirty := False, valid := False\<rparr>"
  let ?s' = "s\<lparr>bufTable := (bufTable s)[i := ?d],
              hashTable := (hashTable s)((f, pageNo (bufTable s ! i)) := None), files := d'\<rparr>"
  have p0: "pinCnt (bufTable s ! i) = 0"
    using Inv_pinCnt[OF assms(1) Flushed(1)] Flushed(4) by simp
  have "Inv ?s'"
    by (rule drop_Inv[OF assms(1) Flushed(1,2), of ?d]) (use p0 Flushed(3) in simp_all)
  moreover have "frozen s ?s'"
    using p0 Flushed(1) by (auto simp: frozen_def pinned_def nth_list_update)
  ultimately show ?thesis using Flushed by simp
next
  case Bad
  then show ?thesis using assms(1) by (simp add: frozen_refl)
next
  case Other
  then show ?thesis using assms(1) by (simp add: frozen_refl)
qed

lemma flushFile_loop_Inv:
  "Inv s \<Longrightarrow> flushFile_loop P f js s = Some (st, s') \<Longrightarrow> Inv s' \<and> frozen s s'"
proof (induction js arbitrary: s)
  case Nil
  then show ?case by (simp add: frozen_refl)
next
  case (Cons i js)
  from Cons.prems(2) obtain r where r: "flushFile_step P f i s = Some r"
    by (auto split: option.splits)
  show ?case
  proof (cases r)
    case (Next s1)
    with flushFile_step_Inv[OF Cons.prems(1) r] have 1: "Inv s1" "frozen s s1" by simp_all
    from Cons.prems(2) r Next have "flushFile_loop P f js s1 = Some (st, s')" by simp
    from Cons.IH[OF 1(1) this] 1(2) show ?thesis by (blast intro: frozen_trans)
  next
    case (Return st1 s1)
    with flushFile_step_Inv[OF Cons.prems(1) r] have 1: "Inv s1" "frozen s s1" by simp_all
    from Cons.prems(2) r Return have "s' = s1" by simp
    then show ?thesis using 1 by simp
  qed
qed

section \<open>Runs of the interface\<close>

lemma exec_Inv:
  assumes "Inv s" "legal s x" "exec P x s = Some (st, s')"
  shows "Inv s' \<and> keeps s s'"
proof (cases x)
  case (ReadPage f p)
  then show ?thesis using assms(3) readPage_Inv[OF assms(1), of P f p] by auto
next
  case (UnPinPage f p d)
  then show ?thesis using assms(3) unPinPage_Inv[OF assms(1), of f p d] by auto
next
  case (AllocPage f)
  then show ?thesis using assms(3) allocPage_Inv[OF assms(1), of P f] by auto
next
  case (FlushFile f)
  then show ?thesis
    using assms(3) flushFile_loop_Inv[OF assms(1), of P f "[0..<numBufs s]"]
    by (auto simp: flushFile_def frozen_keeps)
next
  case AllocBuf
  then show ?thesis using assms(3) allocBuf_Inv[OF assms(1), of P] by (auto simp: frozen_keeps)
next
  case (DisposePage f p)
  then show ?thesis using assms(2,3) disposePage_Inv[OF assms(1), of P f p] by auto
qed

lemma Inv_init: "Inv (BufMgr_init n z d)"
  by (auto simp: Inv_def wf_pool_def desc_ok_def hash_ok_def BufMgr_init_def)

lemma run_Inv: "Inv s \<Longrightarrow> run P xs s = Some s' \<Longrightarrow> Inv s'"
proof (induction xs arbitrary: s)
  case Nil
  then show ?case by simp
next
  case (Cons x xs)
  from Cons.prems(2) obtain st s1 where 1: "legal s x" "exec P x s = Some (st, s1)"
    "run P xs s1 = Some s'"
    by (auto split: if_splits option.splits)
  from exec_Inv[OF Cons.prems(1) 1(1,2)] have "Inv s1" by simp
  from Cons.IH[OF this 1(3)] show ?case .
qed

section \<open>Claims about the buffer pool\<close>

text \<open>
  C1 (allocBuf, the hand after a choice). The claim has the hand advance after every
  inspected frame. On a pool of two frames whose frame under the hand (frame 0) is
  valid, unpinned, clean and has its reference bit clear, \<open>allocBuf\<close> evicts frame 0,
  leaves it invalid and returns it, and the hand is still on frame 0: the victim branch
  returns without \<open>advanceClock\<close>. The branch for an invalid frame does advance: were
  frame 0 invalid, the same call would return it with the hand on frame 1.
\<close>

theorem allocBuf_victim_hand_not_advanced:
  "allocBuf P (two_clean d) =
     Some (OK, Some 0,
       (two_clean d)\<lparr>bufTable := (bufTable (two_clean d))[0 := Clear (bufTable (two_clean d) ! 0)],
                     hashTable := (hashTable (two_clean d))((Some 1, 5) := None)\<rparr>)
   \<and> clockHand (two_clean d) = 0
   \<and> allocBuf P ((two_clean d)\<lparr>bufTable := (bufTable (two_clean d))
                    [0 := Clear (bufTable (two_clean d) ! 0)]\<rparr>) =
     Some (OK, Some 0,
       (two_clean d)\<lparr>bufTable := (bufTable (two_clean d))[0 := Clear (bufTable (two_clean d) ! 0)],
                     clockHand := 1\<rparr>)"
  by (simp add: allocBuf_def two_clean_def allocBuf_step_def ht_remove_def Clear_def
        advanceClock_def eval_nat_numeral)

text \<open>
  Eviction safety for the operations that return. Take any state the pool reaches from
  its construction by legal operations (\<open>readPage\<close>, \<open>unPinPage\<close>, \<open>allocPage\<close>,
  \<open>flushFile\<close>, \<open>allocBuf\<close>, and \<open>disposePage\<close> of pages that are not pinned), and any
  further legal operation that has a result. Every frame that was pinned before the
  operation is valid after it, with the same file, the same page number and the same
  contents. And whenever a clock step chooses a frame that is valid, that frame has its
  reference bit clear and a pin count of zero.
\<close>

lemma returning_operation_keeps_pinned:
  assumes "run P xs (BufMgr_init n z d) = Some s" "legal s x" "exec P x s = Some (st, s')"
  shows "keeps s s' \<and>
         (\<forall>t h t'. allocBuf_step P t = Some (Chosen OK (Some h) t') \<longrightarrow>
            h = clockHand t \<and>
            (valid (bufTable t ! h) \<longrightarrow> \<not> refbit (bufTable t ! h) \<and> pinCnt (bufTable t ! h) = 0))"
proof -
  have "Inv s" using run_Inv[OF Inv_init assms(1)] .
  from exec_Inv[OF this assms(2,3)] have "keeps s s'" by simp
  moreover have "h = clockHand t \<and>
            (valid (bufTable t ! h) \<longrightarrow> \<not> refbit (bufTable t ! h) \<and> pinCnt (bufTable t ! h) = 0)"
    if "allocBuf_step P t = Some (Chosen OK (Some h) t')" for t h t'
    using that by (cases rule: allocBuf_step_cases) auto
  ultimately show ?thesis by blast
qed

text \<open>
  C2 (eviction safety) does not hold of every sequence of legal operations, because one
  of them can leave defined behaviour. \<open>readPage\<close> tests the status of \<open>allocBuf\<close> for
  \<open>BUFFEREXCEEDED\<close> only. In a pool of two frames over a disk that refuses writes, pages
  1 and 2 of file 1 are allocated (frames 1 and 0) and page 2 is unpinned dirty; page 1
  stays pinned. \<open>readPage\<close> of page 3 is legal and misses; \<open>allocBuf\<close> comes to frame 0,
  whose write-back fails, and returns \<open>UNIXERR\<close> without assigning a frame; \<open>readPage\<close>
  goes on with \<open>frameNo = -1\<close> and has the file layer read page 3 into \<open>bufPool[-1]\<close>,
  outside the pool: the call has no defined result, and nothing can be promised about
  the pinned frame afterwards.
\<close>

theorem readPage_after_failed_eviction:
  "\<exists>s s1. run (failing_writes (0::nat))
             [AllocPage (Some 1), AllocPage (Some 1), UnPinPage (Some 1) 2 True]
             (BufMgr_init 2 0 demo_empty) = Some s
        \<and> pinned s 1 \<and> \<not> pinned s 0 \<and> dirty (bufTable s ! 0)
        \<and> legal s (ReadPage (Some 1) 3)
        \<and> allocBuf (failing_writes 0) s = Some (UNIXERR, None, s1)
        \<and> readPage (failing_writes 0) (Some 1) 3 s = None
        \<and> exec (failing_writes 0) (ReadPage (Some 1) 3) s = None"
  by (simp add: BufMgr_init_def demo_empty_def demoP_def failing_writes_def allocPage_def
        allocBuf_def allocBuf_step_def advanceClock_def ht_insert_def ht_remove_def
        ht_lookup_def Set_def Clear_def unPinPage_def readPage_def pinned_def Let_def
        eval_nat_numeral upt_rec)

section \<open>flushFile in frame order\<close>

lemma flush_writes_append:
  "flush_writes P fl bt bp (xs @ ys) d = flush_writes P fl bt bp ys (flush_writes P fl bt bp xs d)"
  by (induction xs arbitrary: d) simp_all

lemma flushFile_step_Return_not_OK:
  "flushFile_step P f i s = Some (Return st s') \<Longrightarrow> st \<noteq> OK"
  by (erule flushFile_step_cases) auto

lemma flushFile_loop_append:
  "flushFile_loop P f (xs @ ys) s =
     (case flushFile_loop P f xs s of
        None \<Rightarrow> None
      | Some (st, s1) \<Rightarrow> if st = OK then flushFile_loop P f ys s1 else Some (st, s1))"
proof (induction xs arbitrary: s)
  case Nil
  then show ?case by simp
next
  case (Cons i xs)
  show ?case
  proof (cases "flushFile_step P f i s")
    case None
    then show ?thesis by simp
  next
    case (Some r)
    then show ?thesis
      using Cons.IH flushFile_step_Return_not_OK[of P f i s]
      by (cases r) auto
  qed
qed

lemma flush_prefix_0: "flush_prefix P fl s 0 = s"
  by (simp add: flush_prefix_def map_nth)

lemma flush_prefix_Suc_other:
  assumes "dfile (bufTable s ! k) \<noteq> Some fl"
  shows "flush_prefix P fl s (Suc k) = flush_prefix P fl s k"
proof -
  have 1: "\<And>j. (j < Suc k \<and> dfile (bufTable s ! j) = Some fl) = (j < k \<and> dfile (bufTable s ! j) = Some fl)"
    using assms by (auto simp: less_Suc_eq)
  have 2: "\<And>key. (\<exists>j<Suc k. dfile (bufTable s ! j) = Some fl \<and> key = (Some fl, pageNo (bufTable s ! j)))
        = (\<exists>j<k. dfile (bufTable s ! j) = Some fl \<and> key = (Some fl, pageNo (bufTable s ! j)))"
    using assms by (auto simp: less_Suc_eq)
  show ?thesis
    unfolding flush_prefix_def 1 2 using assms by (simp add: flush_writes_append)
qed

lemma flush_prefix_Suc_flushed:
  assumes "dfile (bufTable s ! k) = Some fl" "k < length (bufTable s)"
    "d' = (if valid (bufTable s ! k) \<and> dirty (bufTable s ! k)
           then snd (f_writePage P (files (flush_prefix P fl s k)) fl (pageNo (bufTable s ! k)) (bufPool s ! k))
           else files (flush_prefix P fl s k))"
  shows "flush_prefix P fl s (Suc k) =
     (flush_prefix P fl s k)
       \<lparr>bufTable := (bufTable (flush_prefix P fl s k))[k := flushed (bufTable s ! k)],
        hashTable := (hashTable (flush_prefix P fl s k))((Some fl, pageNo (bufTable s ! k)) := None),
        files := d'\<rparr>"
proof -
  have bt: "map (\<lambda>j. if j < Suc k \<and> dfile (bufTable s ! j) = Some fl
                             then flushed (bufTable s ! j) else bufTable s ! j)
                       [0..<length (bufTable s)] =
            (map (\<lambda>j. if j < k \<and> dfile (bufTable s ! j) = Some fl
                             then flushed (bufTable s ! j) else bufTable s ! j)
                       [0..<length (bufTable s)])[k := flushed (bufTable s ! k)]"
    using assms(1,2) by (intro nth_equalityI) (auto simp: nth_list_update less_Suc_eq)
  have ht: "(\<lambda>key. if \<exists>j<Suc k. dfile (bufTable s ! j) = Some fl \<and>
                                     key = (Some fl, pageNo (bufTable s ! j))
                            then None else hashTable s key) =
            (\<lambda>key. if \<exists>j<k. dfile (bufTable s ! j) = Some fl \<and>
                                     key = (Some fl, pageNo (bufTable s ! j))
                            then None else hashTable s key)((Some fl, pageNo (bufTable s ! k)) := None)"
    using assms(1) by (auto simp: fun_eq_iff less_Suc_eq)
  show ?thesis
    unfolding flush_prefix_def bt ht assms(3) using assms(1)
    by (simp add: flush_writes_append)
qed


lemma flush_prefix_fields:
  "numBufs (flush_prefix P fl s k) = numBufs s"
  "bufPool (flush_prefix P fl s k) = bufPool s"
  "clockHand (flush_prefix P fl s k) = clockHand s"
  "length (bufTable (flush_prefix P fl s k)) = length (bufTable s)"
  "files (flush_prefix P fl s k) = flush_writes P fl (bufTable s) (bufPool s) [0..<k] (files s)"
  by (simp_all add: flush_prefix_def)

lemma flush_prefix_later:
  "k \<le> j \<Longrightarrow> j < length (bufTable s) \<Longrightarrow> bufTable (flush_prefix P fl s k) ! j = bufTable s ! j"
  by (simp add: flush_prefix_def)

lemma flush_prefix_earlier:
  "j < k \<Longrightarrow> j < length (bufTable s) \<Longrightarrow> dfile (bufTable s ! j) = Some fl \<Longrightarrow>
     \<not> valid (bufTable (flush_prefix P fl s k) ! j) \<and>
     hashTable (flush_prefix P fl s k) (Some fl, pageNo (bufTable s ! j)) = None"
  by (auto simp add: flush_prefix_def flushed_def)

lemma clean_prefix_Suc:
  "clean_prefix P fl s (Suc k) \<Longrightarrow> clean_prefix P fl s k"
  by (simp add: clean_prefix_def)

lemma flushFile_loop_prefix:
  assumes "length (bufPool s) = length (bufTable s)"
  shows "k \<le> length (bufTable s) \<Longrightarrow> clean_prefix P fl s k \<Longrightarrow>
     flushFile_loop P (Some fl) [0..<k] s = Some (OK, flush_prefix P fl s k)"
proof (induction k)
  case 0
  then show ?case by (simp add: flush_prefix_0)
next
  case (Suc k)
  let ?t = "flush_prefix P fl s k"
  have kl: "k < length (bufTable s)" using Suc.prems(1) by simp
  have ih: "flushFile_loop P (Some fl) [0..<k] s = Some (OK, ?t)"
    using Suc.IH Suc.prems clean_prefix_Suc by auto
  have tk: "bufTable ?t ! k = bufTable s ! k" using kl by (simp add: flush_prefix_later)
  have step: "flushFile_step P (Some fl) k ?t = Some (Next (flush_prefix P fl s (Suc k)))"
  proof (cases "dfile (bufTable s ! k) = Some fl")
    case False
    then show ?thesis
      using kl tk by (simp add: flushFile_step_def flush_prefix_fields flush_prefix_Suc_other)
  next
    case True
    with Suc.prems(2) have c: "valid (bufTable s ! k)" "pinCnt (bufTable s ! k) \<le> 0"
      "dirty (bufTable s ! k) \<longrightarrow>
           fst (f_writePage P (files ?t) fl (pageNo (bufTable s ! k)) (bufPool s ! k)) = OK"
      by (simp_all add: clean_prefix_def flush_prefix_fields)
    show ?thesis
      using kl tk True c assms
      by (auto simp add: flushFile_step_def flush_prefix_fields(1-4) ht_remove_snd Let_def
            flush_prefix_Suc_flushed[OF True kl refl] flushed_def split: prod.splits)
  qed
  show ?case
    using ih step by (simp add: flushFile_loop_append)
qed


text \<open>
  C3, as amended. \<open>flushFile\<close> visits the frames in index order and stops at the first
  frame \<open>k\<close> of the file that is pinned (\<open>PAGEPINNED\<close>), or invalid (\<open>BADBUFFER\<close>), or
  dirty with a failing write-back (the status of the write). The frame it stops at and
  the frames after it are unchanged; the frames of the file before it have been written
  back if dirty, removed from the hash table and invalidated. When no frame stops the
  loop (\<open>k = numBufs\<close>) every frame of the file has been treated so and the result is
  \<open>OK\<close>. No frame's contents change.
\<close>

theorem flushFile_in_frame_order:
  assumes "length (bufTable s) = numBufs s" "length (bufPool s) = numBufs s"
    "k \<le> numBufs s" "clean_prefix P fl s k"
  shows
    "(k < numBufs s \<and> dfile (bufTable s ! k) = Some fl \<and> valid (bufTable s ! k) \<and>
        0 < pinCnt (bufTable s ! k) \<longrightarrow>
        flushFile P (Some fl) s = Some (PAGEPINNED, flush_prefix P fl s k)) \<and>
     (k < numBufs s \<and> dfile (bufTable s ! k) = Some fl \<and> \<not> valid (bufTable s ! k) \<longrightarrow>
        flushFile P (Some fl) s = Some (BADBUFFER, flush_prefix P fl s k)) \<and>
     (k < numBufs s \<and> dfile (bufTable s ! k) = Some fl \<and> valid (bufTable s ! k) \<and>
        pinCnt (bufTable s ! k) \<le> 0 \<and> dirty (bufTable s ! k) \<and>
        fst (f_writePage P (files (flush_prefix P fl s k)) fl
               (pageNo (bufTable s ! k)) (bufPool s ! k)) \<noteq> OK \<longrightarrow>
        flushFile P (Some fl) s =
          (case f_writePage P (files (flush_prefix P fl s k)) fl
                  (pageNo (bufTable s ! k)) (bufPool s ! k) of
             (st, d') \<Rightarrow> Some (st, (flush_prefix P fl s k)\<lparr>files := d'\<rparr>))) \<and>
     (k = numBufs s \<longrightarrow> flushFile P (Some fl) s = Some (OK, flush_prefix P fl s k)) \<and>
     (\<forall>j<numBufs s. k \<le> j \<longrightarrow> bufTable (flush_prefix P fl s k) ! j = bufTable s ! j) \<and>
     (\<forall>j<k. dfile (bufTable s ! j) = Some fl \<longrightarrow>
        \<not> valid (bufTable (flush_prefix P fl s k) ! j) \<and>
        hashTable (flush_prefix P fl s k) (Some fl, pageNo (bufTable s ! j)) = None) \<and>
     bufPool (flush_prefix P fl s k) = bufPool s"
proof -
  let ?t = "flush_prefix P fl s k"
  have lp: "flushFile_loop P (Some fl) [0..<k] s = Some (OK, ?t)"
    using flushFile_loop_prefix[of s k P fl] assms by simp
  have split: "k < numBufs s \<Longrightarrow> [0..<numBufs s] = [0..<k] @ k # [Suc k..<numBufs s]"
    by (metis upt_conv_Cons upt_add_eq_append le_add_diff_inverse less_imp_le_nat zero_le)
  have stop: "flushFile P (Some fl) s = Some (st, t')"
    if "k < numBufs s" "flushFile_step P (Some fl) k ?t = Some (Return st t')" for st t'
    using that lp flushFile_step_Return_not_OK[OF that(2)]
    by (simp add: flushFile_def split flushFile_loop_append)
  have tk: "k < numBufs s \<Longrightarrow> bufTable ?t ! k = bufTable s ! k"
    using assms(1) by (simp add: flush_prefix_later)
  have 1: "flushFile P (Some fl) s = Some (PAGEPINNED, ?t)"
    if "k < numBufs s" "dfile (bufTable s ! k) = Some fl" "valid (bufTable s ! k)"
       "0 < pinCnt (bufTable s ! k)"
    using that tk assms(1)
    by (intro stop) (simp_all add: flushFile_step_def flush_prefix_fields)
  have 2: "flushFile P (Some fl) s = Some (BADBUFFER, ?t)"
    if "k < numBufs s" "dfile (bufTable s ! k) = Some fl" "\<not> valid (bufTable s ! k)"
    using that tk assms(1)
    by (intro stop) (simp_all add: flushFile_step_def flush_prefix_fields)
  have 3: "flushFile P (Some fl) s =
          (case f_writePage P (files ?t) fl (pageNo (bufTable s ! k)) (bufPool s ! k) of
             (st, d') \<Rightarrow> Some (st, ?t\<lparr>files := d'\<rparr>))"
    if "k < numBufs s" "dfile (bufTable s ! k) = Some fl" "valid (bufTable s ! k)"
       "pinCnt (bufTable s ! k) \<le> 0" "dirty (bufTable s ! k)"
       "fst (f_writePage P (files ?t) fl (pageNo (bufTable s ! k)) (bufPool s ! k)) \<noteq> OK"
  proof -
    obtain st d' where w: "f_writePage P (files ?t) fl (pageNo (bufTable s ! k)) (bufPool s ! k) = (st, d')"
      by (cases "f_writePage P (files ?t) fl (pageNo (bufTable s ! k)) (bufPool s ! k)") auto
    have "flushFile P (Some fl) s = Some (st, ?t\<lparr>files := d'\<rparr>)"
      using that tk assms(1,2) w
      by (intro stop) (simp_all add: flushFile_step_def flush_prefix_fields(1-4))
    then show ?thesis by (simp add: w)
  qed
  have 4: "flushFile P (Some fl) s = Some (OK, ?t)" if "k = numBufs s"
    using that lp by (simp add: flushFile_def)
  have 5: "\<forall>j<numBufs s. k \<le> j \<longrightarrow> bufTable ?t ! j = bufTable s ! j"
    using assms(1) by (simp add: flush_prefix_later)
  have 6: "\<forall>j<k. dfile (bufTable s ! j) = Some fl \<longrightarrow>
        \<not> valid (bufTable ?t ! j) \<and> hashTable ?t (Some fl, pageNo (bufTable s ! j)) = None"
    using assms(1,3) flush_prefix_earlier[of _ k s fl P] by auto
  have 7: "bufPool ?t = bufPool s" by (simp add: flush_prefix_fields)
  show ?thesis
    using 1 2 3 4 5 6 7 by blast
qed

text \<open>
  The run for C3: frame 0 is flushed before the pinned frame 1 stops the loop.
\<close>

theorem flushFile_in_frame_order_witness:
  "length (bufTable dirty_then_pinned) = numBufs dirty_then_pinned
   \<and> length (bufPool dirty_then_pinned) = numBufs dirty_then_pinned
   \<and> 1 \<le> numBufs dirty_then_pinned
   \<and> clean_prefix (demoP 0) 1 dirty_then_pinned 1
   \<and> pinned dirty_then_pinned 1
   \<and> flushFile (demoP 0) (Some 1) dirty_then_pinned =
       Some (PAGEPINNED, flush_prefix (demoP 0) 1 dirty_then_pinned 1)
   \<and> bufTable (flush_prefix (demoP 0) 1 dirty_then_pinned 1) ! 1 = bufTable dirty_then_pinned ! 1
   \<and> \<not> valid (bufTable (flush_prefix (demoP 0) 1 dirty_then_pinned 1) ! 0)"
proof -
  have h: "length (bufTable dirty_then_pinned) = numBufs dirty_then_pinned"
    "length (bufPool dirty_then_pinned) = numBufs dirty_then_pinned"
    "1 \<le> numBufs dirty_then_pinned"
    "clean_prefix (demoP 0) 1 dirty_then_pinned 1"
    by (simp_all add: dirty_then_pinned_def clean_prefix_def demoP_def)
  have p: "pinned dirty_then_pinned 1" "1 < numBufs dirty_then_pinned"
    "dfile (bufTable dirty_then_pinned ! 1) = Some 1" "valid (bufTable dirty_then_pinned ! 1)"
    "0 < pinCnt (bufTable dirty_then_pinned ! 1)"
    by (simp_all add: dirty_then_pinned_def pinned_def)
  have z: "dfile (bufTable dirty_then_pinned ! 0) = Some 1"
    by (simp add: dirty_then_pinned_def)
  from flushFile_in_frame_order[OF h] p z h show ?thesis by simp
qed

text \<open>
  C3 as stated fails on that pool: frame 1 of file 1 is valid and pinned and the result
  is \<open>PAGEPINNED\<close>, but frame 0 of the same file has been written back (the disk now holds
  11 for page 1), removed from the hash table and invalidated.
\<close>

theorem flushFile_mutates_before_pinned:
  "valid (bufTable dirty_then_pinned ! 1) \<and> dfile (bufTable dirty_then_pinned ! 1) = Some 1
   \<and> 0 < pinCnt (bufTable dirty_then_pinned ! 1)
   \<and> valid (bufTable dirty_then_pinned ! 0) \<and> dfile (bufTable dirty_then_pinned ! 0) = Some 1
   \<and> flushFile (demoP 0) (Some 1) dirty_then_pinned = Some (PAGEPINNED, dirty_then_pinned_after)
   \<and> \<not> valid (bufTable dirty_then_pinned_after ! 0)
   \<and> hashTable dirty_then_pinned (Some 1, 1) = Some 0
   \<and> hashTable dirty_then_pinned_after (Some 1, 1) = None
   \<and> d_pages (files dirty_then_pinned) (1, 1) = Some 10
   \<and> d_pages (files dirty_then_pinned_after) (1, 1) = Some 11"
  by (simp add: dirty_then_pinned_def dirty_then_pinned_after_def flushFile_def
        flushFile_step_def demoP_def flushed_def ht_remove_def Let_def upt_rec)

section \<open>The statuses the pool returns\<close>

lemma allocBuf_loop_status:
  "allocBuf_loop P n s = Some (st, fr, s') \<Longrightarrow> st \<in> {OK, UNIXERR, HASHTBLERROR, BUFFEREXCEEDED}"
proof (induction n arbitrary: s)
  case 0
  then show ?case by simp
next
  case (Suc n)
  from Suc.prems obtain r where r: "allocBuf_step P s = Some r"
    by (auto split: option.splits)
  show ?case
  proof (cases r)
    case (Continue s1)
    then show ?thesis using Suc r by simp
  next
    case (Chosen st1 fr1 s1)
    then show ?thesis using Suc.prems r step_chosen_frame[of P s st1 fr1 s1] by auto
  qed
qed

lemma readPage_status:
  assumes "readPage P f p s = Some (st, pg, s')"
  shows "st \<in> {OK, UNIXERR, HASHTBLERROR, BUFFEREXCEEDED} \<and> (st = OK \<longleftrightarrow> pg \<noteq> None)"
proof (cases "hashTable s (f, p)")
  case (Some fno)
  show ?thesis using assms
    by (auto simp: readPage_def ht_lookup_def Let_def Some split: if_splits)
next
  case None
  then obtain st1 fr s1 where a: "allocBuf P s = Some (st1, fr, s1)"
    using assms by (auto simp: readPage_def ht_lookup_def split: option.splits)
  show ?thesis
    using assms a allocBuf_loop_status[of P "numBufs s * 2" s st1 fr s1]
    by (auto simp: readPage_def ht_lookup_def ht_insert_def Let_def None allocBuf_def
        split: option.splits if_splits prod.splits)
qed

lemma unPinPage_status:
  "unPinPage f p d s = Some (st, s') \<Longrightarrow> st \<in> {OK, HASHNOTFOUND, PAGENOTPINNED}"
  by (auto simp: unPinPage_def ht_lookup_def Let_def split: option.splits if_splits)

section \<open>Claims about scans: startScan\<close>

lemma startScan_p1_no_filter:
  assumes "startScan_p1 P G ofs len t None op h w = Some (st, h', w')"
  shows "st \<noteq> BADSCANPARM \<and> s_filter h' = None"
  using assms
  by (auto simp: startScan_p1_def Let_def split: option.splits if_splits prod.splits
      dest!: unPinPage_status readPage_status)

lemma startScan_p1_resets:
  assumes "startScan_p1 P G ofs len t f op h w = Some (OK, h', w')"
  shows "curRec h' = NULLRID \<and> markedPageNo h' = -1 \<and> markedRec h' = NULLRID \<and>
      (\<exists>w1. (if curPage h = None then w1 = w
              else unPinPage (filePtr h) (curPageNo h) (curDirtyFlag h) w = Some (OK, w1)) \<and>
         (case headerPage h of
            None \<Rightarrow> curPage h' = None \<and> w' = w1
          | Some hfr \<Rightarrow> hfr < length (bufPool w1) \<and>
              (if firstPage (hdr (bufPool w1 ! hfr)) = -1 then curPage h' = None \<and> w' = w1
               else \<exists>fr. readPage P (filePtr h) (firstPage (hdr (bufPool w1 ! hfr))) w1
                            = Some (OK, Some fr, w') \<and>
                          curPage h' = Some fr \<and>
                          curPageNo h' = firstPage (hdr (bufPool w' ! hfr)) \<and>
                          curDirtyFlag h' = False)))"
proof (cases "curPage h = None")
  case True
  then show ?thesis
    using assms
    by (auto simp: startScan_p1_def Let_def frame_page_def
        split: option.splits if_splits prod.splits dest: readPage_status)
next
  case False
  then obtain st1 w1 where u: "unPinPage (filePtr h) (curPageNo h) (curDirtyFlag h) w = Some (st1, w1)"
    using assms by (auto simp: startScan_p1_def Let_def split: option.splits if_splits)
  then have "st1 = OK" using assms False
    by (auto simp: startScan_p1_def Let_def split: option.splits if_splits)
  then show ?thesis
    using assms False u
    by (auto simp: startScan_p1_def Let_def frame_page_def
        split: option.splits if_splits prod.splits dest: readPage_status)
qed

text \<open>
  C6, as amended. With a null filter both variants clear the filter, ignore the other
  parameters and never answer \<open>BADSCANPARM\<close>. With a non-null filter, each invalid
  combination (offset below 0, length below 1, a type outside STRING, INTEGER, FLOAT,
  INTEGER with a length other than \<open>sizeof(int)\<close>, FLOAT with a length other than
  \<open>sizeof(float)\<close>, an operator outside LT, LTE, EQ, GTE, GT, NE) makes both variants
  return \<open>BADSCANPARM\<close> with the scan and the pool unchanged. The position is treated
  differently: stage4's \<open>startScan\<close> never changes \<open>curPage\<close>, \<open>curPageNo\<close> or \<open>curRec\<close>
  (the constructor has put the scan before the first record); part_001's, when it
  returns \<open>OK\<close>, has cleared the mark, unpinned the page that was pinned, whichever it
  was, set \<open>curRec\<close> to \<open>NULLRID\<close> and, unless there is no header or \<open>firstPage\<close> is \<open>-1\<close>,
  pinned \<open>headerPage->firstPage\<close> as the clean current page.
\<close>

theorem startScan_filter_and_position:
  "startScan G ofs len t None op h = (OK, h\<lparr>s_filter := None\<rparr>)
   \<and> startScan_p1 P G ofs len t None op h w = startScan_p1 P G ofs' len' t' None op' h w
   \<and> (\<forall>st h' w'. startScan_p1 P G ofs len t None op h w = Some (st, h', w') \<longrightarrow>
         st \<noteq> BADSCANPARM \<and> s_filter h' = None)
   \<and> (ofs < 0 \<or> len < 1 \<or> t \<notin> {STRING, INTEGER, FLOAT} \<or>
       (t = INTEGER \<and> len \<noteq> sizeof_int G) \<or> (t = FLOAT \<and> len \<noteq> sizeof_float G) \<or>
       op \<notin> {LT, LTE, EQ, GTE, GT, NE} \<longrightarrow>
         startScan G ofs len t (Some flt) op h = (BADSCANPARM, h) \<and>
         startScan_p1 P G ofs len t (Some flt) op h w = Some (BADSCANPARM, h, w))
   \<and> curPage (snd (startScan G ofs len t f op h)) = curPage h
   \<and> curPageNo (snd (startScan G ofs len t f op h)) = curPageNo h
   \<and> curRec (snd (startScan G ofs len t f op h)) = curRec h
   \<and> (\<forall>h' w'. startScan_p1 P G ofs len t f op h w = Some (OK, h', w') \<longrightarrow>
         curRec h' = NULLRID \<and> markedPageNo h' = -1 \<and> markedRec h' = NULLRID \<and>
         (\<exists>w1. (if curPage h = None then w1 = w
                 else unPinPage (filePtr h) (curPageNo h) (curDirtyFlag h) w = Some (OK, w1)) \<and>
            (case headerPage h of
               None \<Rightarrow> curPage h' = None \<and> w' = w1
             | Some hfr \<Rightarrow> hfr < length (bufPool w1) \<and>
                 (if firstPage (hdr (bufPool w1 ! hfr)) = -1 then curPage h' = None \<and> w' = w1
                  else \<exists>fr. readPage P (filePtr h) (firstPage (hdr (bufPool w1 ! hfr))) w1
                               = Some (OK, Some fr, w') \<and>
                             curPage h' = Some fr \<and>
                             curPageNo h' = firstPage (hdr (bufPool w' ! hfr)) \<and>
                             curDirtyFlag h' = False))))"
proof -
  have 1: "startScan G ofs len t None op h = (OK, h\<lparr>s_filter := None\<rparr>)"
    by (simp add: startScan_def)
  have 2: "startScan_p1 P G ofs len t None op h w = startScan_p1 P G ofs' len' t' None op' h w"
    by (simp add: startScan_p1_def)
  have 3: "\<forall>st h' w'. startScan_p1 P G ofs len t None op h w = Some (st, h', w') \<longrightarrow>
         st \<noteq> BADSCANPARM \<and> s_filter h' = None"
    using startScan_p1_no_filter by blast
  have 4: "ofs < 0 \<or> len < 1 \<or> t \<notin> {STRING, INTEGER, FLOAT} \<or>
       (t = INTEGER \<and> len \<noteq> sizeof_int G) \<or> (t = FLOAT \<and> len \<noteq> sizeof_float G) \<or>
       op \<notin> {LT, LTE, EQ, GTE, GT, NE} \<longrightarrow>
         startScan G ofs len t (Some flt) op h = (BADSCANPARM, h) \<and>
         startScan_p1 P G ofs len t (Some flt) op h w = Some (BADSCANPARM, h, w)"
    by (auto simp: startScan_def startScan_p1_def bad_scan_parm_def)
  have 5: "curPage (snd (startScan G ofs len t f op h)) = curPage h"
      "curPageNo (snd (startScan G ofs len t f op h)) = curPageNo h"
      "curRec (snd (startScan G ofs len t f op h)) = curRec h"
    by (simp_all add: startScan_def)
  show ?thesis
    using 1 2 3 4 5 startScan_p1_resets[of P G ofs len t f op h w] by blast
qed

text \<open>
  Runs for C6. A negative offset is rejected by both variants. On the concrete file,
  the scan of part_001 has returned three records and stands on page 3; \<open>startScan\<close>
  with a null filter puts it back before the first record of page 2, the first page.
\<close>

theorem startScan_filter_and_position_witness:
  "startScan demoG (-1) 4 INTEGER (Some ''abcd'') EQ (fst demo_scan) = (BADSCANPARM, fst demo_scan)
   \<and> startScan_p1 (demoP blank) demoG (-1) 4 INTEGER (Some ''abcd'') EQ
        (fst demo_scan_p1) (snd demo_scan_p1)
       = Some (BADSCANPARM, fst demo_scan_p1, snd demo_scan_p1)
   \<and> curPageNo (fst (snd (scan_steps_p1 (demoP blank) demoG 3 (fst demo_scan_p1) (snd demo_scan_p1)))) = 3
   \<and> (\<exists>h' w'. startScan_p1 (demoP blank) demoG 0 0 STRING None EQ
          (fst (snd (scan_steps_p1 (demoP blank) demoG 3 (fst demo_scan_p1) (snd demo_scan_p1))))
          (snd (snd (scan_steps_p1 (demoP blank) demoG 3 (fst demo_scan_p1) (snd demo_scan_p1))))
           = Some (OK, h', w')
        \<and> curRec h' = NULLRID \<and> curPageNo h' = 2 \<and> curPage h' \<noteq> None)"
proof -
  let ?h = "fst (snd (scan_steps_p1 (demoP blank) demoG 3 (fst demo_scan_p1) (snd demo_scan_p1)))"
  let ?w = "snd (snd (scan_steps_p1 (demoP blank) demoG 3 (fst demo_scan_p1) (snd demo_scan_p1)))"
  note T = startScan_filter_and_position
  have b: "(-1::int) < 0" by simp
  have 1: "startScan demoG (-1) 4 INTEGER (Some ''abcd'') EQ (fst demo_scan) = (BADSCANPARM, fst demo_scan)"
    using T[of demoG "-1" 4 INTEGER EQ "fst demo_scan" "demoP blank" "snd demo_scan"] b by blast
  have 2: "startScan_p1 (demoP blank) demoG (-1) 4 INTEGER (Some ''abcd'') EQ
        (fst demo_scan_p1) (snd demo_scan_p1)
       = Some (BADSCANPARM, fst demo_scan_p1, snd demo_scan_p1)"
    using T[of demoG "-1" 4 INTEGER EQ "fst demo_scan_p1" "demoP blank" "snd demo_scan_p1"] b by blast
  have 3: "curPageNo ?h = 3" by code_simp
  have "map_option (\<lambda>(st, h', w'). (st, curPageNo h', curPage h' \<noteq> None))
          (startScan_p1 (demoP blank) demoG 0 0 STRING None EQ ?h ?w) = Some (OK, 2, True)"
    by code_simp
  then obtain h' w' where s: "startScan_p1 (demoP blank) demoG 0 0 STRING None EQ ?h ?w = Some (OK, h', w')"
    and c: "curPageNo h' = 2" "curPage h' \<noteq> None"
    by (cases "startScan_p1 (demoP blank) demoG 0 0 STRING None EQ ?h ?w") auto
  from T[of demoG 0 0 STRING EQ ?h "demoP blank" ?w] s have "curRec h' = NULLRID" by blast
  with 1 2 3 s c show ?thesis by blast
qed

text \<open>
  C6 as stated fails on stage4: its scan, after three records, stands on record
  (3, 1); \<open>startScan\<close> with a null filter returns \<open>OK\<close> and the scan still stands there.
\<close>

theorem startScan_stage4_keeps_position:
  "curRec (fst (snd (scan_steps (demoP blank) demoG 3 (fst demo_scan) (snd demo_scan))))
     = \<lparr>pgNo = 3, slotNo = 1\<rparr>
   \<and> fst (startScan demoG 0 0 STRING None EQ
        (fst (snd (scan_steps (demoP blank) demoG 3 (fst demo_scan) (snd demo_scan))))) = OK
   \<and> curRec (snd (startScan demoG 0 0 STRING None EQ
        (fst (snd (scan_steps (demoP blank) demoG 3 (fst demo_scan) (snd demo_scan))))))
     = \<lparr>pgNo = 3, slotNo = 1\<rparr>
   \<and> curPageNo (snd (startScan demoG 0 0 STRING None EQ
        (fst (snd (scan_steps (demoP blank) demoG 3 (fst demo_scan) (snd demo_scan)))))) = 3
   \<and> firstPage (hdr (bufPool (snd demo_scan) ! 4)) = 2
   \<and> headerPage (fst demo_scan) = Some 4"
  by code_simp

section \<open>Claims about record lookup\<close>

text \<open>
  C7 (getRecord, \<open>curRec\<close> after a lookup on the pinned page). A freshly constructed
  stage4 heap file on the concrete file has page 2 pinned as \<open>curPage\<close> and \<open>curRec =
  NULLRID\<close>. \<open>getRecord\<close> of record (2, 1) finds the record on the pinned page and returns
  \<open>OK\<close>, and \<open>curRec\<close> is then (-1, 1): the branch for the pinned page assigns
  \<open>curRec.slotNo\<close> only, where the claim has \<open>curRec = rid\<close> in both fields. The other
  branch of the same function assigns both fields, and part_001 assigns \<open>curRec = rid\<close>:
  the same lookup there leaves \<open>curRec\<close> at (2, 1).
\<close>

theorem getRecord_same_page_keeps_pageNo:
  "curRec (fst demo_scan) = NULLRID
   \<and> curPageNo (fst demo_scan) = 2
   \<and> curPage (fst demo_scan) = Some 0
   \<and> map_option (\<lambda>(st, r, h', w'). (st, r, curRec h'))
        (getRecord (demoP blank) demoG \<lparr>pgNo = 2, slotNo = 1\<rparr> (fst demo_scan) (snd demo_scan))
      = Some (OK, Some (rec1 ''a''), \<lparr>pgNo = -1, slotNo = 1\<rparr>)
   \<and> map_option (\<lambda>(st, r, h', w'). (st, r, curRec h'))
        (getRecord_p1 (demoP blank) demoG \<lparr>pgNo = 2, slotNo = 1\<rparr>
           (fst demo_scan_p1) (snd demo_scan_p1))
      = Some (OK, Some (rec1 ''a''), \<lparr>pgNo = 2, slotNo = 1\<rparr>)"
  by code_simp

section \<open>Claims about construction\<close>

lemma allocBuf_step_pins:
  assumes "allocBuf_step P s = Some r"
  shows "case r of Continue s' \<Rightarrow> map pinCnt (bufTable s') = map pinCnt (bufTable s)
         | Chosen st fr s' \<Rightarrow> map pinCnt (bufTable s') = map pinCnt (bufTable s)"
  using assms
  by (cases rule: allocBuf_step_cases)
     (auto simp: advanceClock_def Clear_def map_update list_update_same_conv)

lemma allocBuf_loop_pins:
  "allocBuf_loop P n s = Some (st, fr, s') \<Longrightarrow> map pinCnt (bufTable s') = map pinCnt (bufTable s)"
proof (induction n arbitrary: s)
  case 0
  then show ?case by simp
next
  case (Suc n)
  from Suc.prems obtain r where r: "allocBuf_step P s = Some r"
    by (auto split: option.splits)
  show ?case
    using Suc r allocBuf_step_pins[OF r] by (cases r) auto
qed

lemma readPage_fail_pins:
  assumes "readPage P f p s = Some (st, pg, s')" "st \<noteq> OK"
  shows "map pinCnt (bufTable s') = map pinCnt (bufTable s)"
proof (cases "hashTable s (f, p)")
  case (Some fno)
  then show ?thesis using assms
    by (auto simp: readPage_def ht_lookup_def Let_def split: if_splits)
next
  case None
  then obtain st1 fr s1 where a: "allocBuf P s = Some (st1, fr, s1)"
    using assms by (auto simp: readPage_def ht_lookup_def split: option.splits)
  from allocBuf_loop_pins[OF a[unfolded allocBuf_def]]
  have "map pinCnt (bufTable s1) = map pinCnt (bufTable s)" .
  then show ?thesis
    using assms a None
    by (auto simp: readPage_def ht_lookup_def ht_insert_def Let_def
        split: option.splits if_splits prod.splits)
qed

lemma readPage_ok_pins:
  assumes "Inv s" "readPage P f p s = Some (OK, pg, s')"
  shows "\<exists>fr. pg = Some fr \<and> fr < length (bufTable s) \<and> hashTable s' (f, p) = Some fr \<and>
     map pinCnt (bufTable s') = (map pinCnt (bufTable s))[fr := pinCnt (bufTable s ! fr) + 1]"
proof (cases "hashTable s (f, p)")
  case (Some fno)
  note fn = Inv_hash[OF assms(1) Some]
  have s': "pg = Some fno" "hashTable s' = hashTable s"
    "bufTable s' = (bufTable s)[fno := (bufTable s ! fno)\<lparr>pinCnt := pinCnt (bufTable s ! fno) + 1,
        refbit := True\<rparr>]"
    using assms(2) fn by (auto simp: readPage_def ht_lookup_def Let_def Some split: if_splits)
  show ?thesis
    unfolding s' using Some fn by (simp add: map_update)
next
  case None
  then obtain st1 fr s1 where a: "allocBuf P s = Some (st1, fr, s1)"
    using assms by (auto simp: readPage_def ht_lookup_def split: option.splits)
  note A = allocBuf_Inv[OF assms(1) a]
  from allocBuf_loop_pins[OF a[unfolded allocBuf_def]]
  have pe: "map pinCnt (bufTable s1) = map pinCnt (bufTable s)" .
  then have le: "length (bufTable s1) = length (bufTable s)" by (metis length_map)
  from assms(2) None a have "st1 = OK"
    using A by (auto simp: readPage_def ht_lookup_def split: option.splits if_splits)
  then obtain h where h: "fr = Some h" "h < length (bufTable s1)" "\<not> valid (bufTable s1 ! h)"
    using A by auto
  have i1: "Inv s1" using A by simp
  have p0: "pinCnt (bufTable s1 ! h) = 0" using Inv_invalid[OF i1 h(2,3)] .
  have p0': "pinCnt (bufTable s ! h) = 0"
    using pe h(2) le p0 by (metis nth_map)
  show ?thesis
    using assms(2) None a h pe le p0'
    by (auto simp: readPage_def ht_lookup_def ht_insert_def Let_def Set_def map_update
        split: option.splits if_splits prod.splits)
qed

lemma unPinPage_ok_pins:
  assumes "hashTable s (f, p) = Some fr" "fr < length (bufTable s)" "pinCnt (bufTable s ! fr) \<noteq> 0"
  shows "\<exists>s'. unPinPage f p d s = Some (OK, s') \<and> files s' = files s \<and>
     map pinCnt (bufTable s') = (map pinCnt (bufTable s))[fr := pinCnt (bufTable s ! fr) - 1]"
  using assms by (simp add: unPinPage_def ht_lookup_def Let_def map_update)


lemma dtor_p1_null: "filePtr h = None \<Longrightarrow> HeapFile_dtor_p1 P h w = Some (h, w)"
  by (simp add: HeapFile_dtor_p1_def)

text \<open>
  C10 (part_001's constructor on failure). Let the pool satisfy its invariant and the
  constructor report a status other than \<open>OK\<close>. Then \<open>filePtr\<close>, \<open>headerPage\<close> and
  \<open>curPage\<close> are null, every frame has the pin count it had before the call (the pin on
  the header, if it was taken, has been given back), the file, if it was opened, has
  been closed as the last action on the file layer, and the destructor that follows
  changes neither the object nor the pool nor the file layer: it unpins and closes
  nothing.
\<close>

theorem HeapFile_ctor_p1_failure_clean:
  assumes "Inv w" "HeapFile_ctor_p1 P name u w = Some (st, h, w')" "st \<noteq> OK"
  shows "filePtr h = None \<and> headerPage h = None \<and> curPage h = None
     \<and> map pinCnt (bufTable w') = map pinCnt (bufTable w)
     \<and> (fst (db_openFile P (files w) name) = OK \<longrightarrow>
          (\<exists>d. files w' = snd (db_closeFile P d (fst (snd (db_openFile P (files w) name))))))
     \<and> HeapFile_dtor_p1 P h w' = Some (h, w')"
proof -
  obtain status fp d1 where op: "db_openFile P (files w) name = (status, fp, d1)"
    by (cases "db_openFile P (files w) name") auto
  define h1 where "h1 = (HeapFile_members u)\<lparr>filePtr := fp\<rparr>"
  define w1 where "w1 = w\<lparr>files := d1\<rparr>"
  have i1: "Inv w1" unfolding w1_def by (rule Inv_same[OF assms(1)]) simp_all
  have m: "headerPage h1 = None" "curPage h1 = None"
    by (simp_all add: h1_def HeapFile_members_def)
  have main: "filePtr h = None \<and> headerPage h = None \<and> curPage h = None
     \<and> map pinCnt (bufTable w') = map pinCnt (bufTable w)
     \<and> (status = OK \<longrightarrow> (\<exists>d. files w' = snd (db_closeFile P d fp)))"
  proof (cases "status = OK")
    case False
    then have "h = h1\<lparr>filePtr := None\<rparr>" "w' = w1"
      using assms(2) op by (simp_all add: HeapFile_ctor_p1_def h1_def w1_def Let_def)
    then show ?thesis using m False by (simp add: w1_def)
  next
    case True
    then obtain fl where fl: "fp = Some fl"
      using assms(2) op by (auto simp: HeapFile_ctor_p1_def Let_def split: option.splits)
    obtain status2 hpno where g: "f_getFirstPage P d1 fl = (status2, hpno)"
      by (cases "f_getFirstPage P d1 fl") auto
    define h2 where "h2 = h1\<lparr>headerPageNo := hpno\<rparr>"
    have m2: "headerPage h2 = None" "curPage h2 = None" using m by (simp_all add: h2_def)
    show ?thesis
    proof (cases "status2 \<noteq> OK \<or> hpno < 0")
      case True
      then have "h = h2\<lparr>filePtr := None\<rparr>" "w' = w1\<lparr>files := snd (db_closeFile P d1 fp)\<rparr>"
        using assms(2) op \<open>status = OK\<close> fl g
        by (auto simp: HeapFile_ctor_p1_def h1_def h2_def w1_def Let_def split: prod.splits)
      then show ?thesis using m2 by (auto simp: w1_def)
    next
      case False
      then obtain status3 pagePtr w2 where r: "readPage P fp hpno w1 = Some (status3, pagePtr, w2)"
        using assms(2) op \<open>status = OK\<close> fl g
        by (auto simp: HeapFile_ctor_p1_def h1_def w1_def Let_def split: option.splits)
      note R = readPage_Inv[OF i1 r]
      show ?thesis
      proof (cases "status3 = OK")
        case False
        then have "h = h2\<lparr>filePtr := None\<rparr>" "w' = w2\<lparr>files := snd (db_closeFile P (files w2) fp)\<rparr>"
          using assms(2) op \<open>status = OK\<close> fl g \<open>\<not> (status2 \<noteq> OK \<or> hpno < 0)\<close> r
          by (auto simp: HeapFile_ctor_p1_def h1_def h2_def w1_def Let_def split: prod.splits)
        then show ?thesis
          using m2 readPage_fail_pins[OF r False] by (auto simp: w1_def)
      next
        case True
        from readPage_ok_pins[OF i1 r[unfolded True]] obtain fr where
          fr: "pagePtr = Some fr" "fr < length (bufTable w1)" "hashTable w2 (fp, hpno) = Some fr"
          "map pinCnt (bufTable w2) = (map pinCnt (bufTable w1))[fr := pinCnt (bufTable w1 ! fr) + 1]"
          by blast
        have i2: "Inv w2" using R by simp
        obtain hp where hp: "frame_page w2 pagePtr = Some hp"
          using assms(2) op \<open>status = OK\<close> fl g \<open>\<not> (status2 \<noteq> OK \<or> hpno < 0)\<close> r True
          by (auto simp: HeapFile_ctor_p1_def h1_def w1_def Let_def split: option.splits)
        define h3 where "h3 = h2\<lparr>headerPage := pagePtr, hdrDirtyFlag := False, curRec := NULLRID\<rparr>"
        have f1: "firstPage (hdr hp) \<noteq> -1"
          using assms(2,3) op \<open>status = OK\<close> fl g \<open>\<not> (status2 \<noteq> OK \<or> hpno < 0)\<close> r True hp
          by (auto simp: HeapFile_ctor_p1_def h1_def w1_def Let_def split: option.splits)
        then obtain status4 cp w3 where
          r2: "readPage P fp (firstPage (hdr hp)) w2 = Some (status4, cp, w3)"
          using assms(2) op \<open>status = OK\<close> fl g \<open>\<not> (status2 \<noteq> OK \<or> hpno < 0)\<close> r True hp
          by (auto simp: HeapFile_ctor_p1_def h1_def w1_def Let_def split: option.splits)
        have s4: "status4 \<noteq> OK"
          using assms(2,3) op \<open>status = OK\<close> fl g \<open>\<not> (status2 \<noteq> OK \<or> hpno < 0)\<close> r True hp f1 r2
          by (auto simp: HeapFile_ctor_p1_def h1_def w1_def Let_def split: option.splits)
        then have cpn: "cp = None" using readPage_status[OF r2] by simp
        note R2 = readPage_Inv[OF i2 r2]
        have i3: "Inv w3" using R2 by simp
        have pe3: "map pinCnt (bufTable w3) = map pinCnt (bufTable w2)"
          using readPage_fail_pins[OF r2 s4] .
        have l2: "length (bufTable w2) = length (bufTable w1)"
          using fr(4) by (metis length_list_update length_map)
        have l3: "length (bufTable w3) = length (bufTable w2)"
          using pe3 by (metis length_map)
        have pc2: "pinCnt (bufTable w2 ! fr) = pinCnt (bufTable w1 ! fr) + 1"
          using fr(2,4) l2 by (metis length_map nth_list_update_eq nth_map)
        have pc3: "pinCnt (bufTable w3 ! fr) = pinCnt (bufTable w1 ! fr) + 1"
          using pe3 pc2 fr(2) l2 l3 by (metis nth_map)
        have pos: "0 < pinCnt (bufTable w2 ! fr)"
          using pc2 Inv_pinCnt[OF i1 fr(2)] by simp
        have pin2: "pinned w2 fr"
          using Inv_hash[OF i2 fr(3)] pos by (simp add: pinned_def)
        have id2: "dfile (bufTable w2 ! fr) = fp" "pageNo (bufTable w2 ! fr) = hpno"
          using Inv_hash[OF i2 fr(3)] by simp_all
        have k: "valid (bufTable w3 ! fr)" "dfile (bufTable w3 ! fr) = fp" "pageNo (bufTable w3 ! fr) = hpno"
          using R2 pin2 id2 by (auto simp: keeps_def)
        have h3': "hashTable w3 (fp, hpno) = Some fr"
          using i3 k fr(2) l2 l3 by (auto simp: Inv_def desc_ok_def)
        from unPinPage_ok_pins[OF h3', of False] fr(2) l2 l3 pc3 Inv_pinCnt[OF i1 fr(2)]
        obtain w4 where u: "unPinPage fp hpno False w3 = Some (OK, w4)"
          and pe4: "map pinCnt (bufTable w4) = (map pinCnt (bufTable w3))[fr := pinCnt (bufTable w3 ! fr) - 1]"
          by auto
        have res: "h = h3\<lparr>filePtr := None, headerPage := None\<rparr>"
            "w' = w4\<lparr>files := snd (db_closeFile P (files w4) fp)\<rparr>"
          using assms(2) op \<open>status = OK\<close> fl g \<open>\<not> (status2 \<noteq> OK \<or> hpno < 0)\<close> r True hp f1 r2 s4 cpn u
          by (auto simp: HeapFile_ctor_p1_def h1_def h2_def h3_def w1_def Let_def split: prod.splits)
        have "map pinCnt (bufTable w4) = map pinCnt (bufTable w1)"
          unfolding pe4 pe3 fr(4) pc3 using fr(2) by (simp add: list_update_same_conv)
        then show ?thesis
          using res m2 by (auto simp: h3_def w1_def)
      qed
    qed
  qed
  then show ?thesis using op dtor_p1_null[of h P w'] by simp
qed

text \<open>
  A run for C10: the header of file \<open>t\<close> names a first data page that cannot be read.
  The constructor pins the header, fails on the data page with \<open>UNIXERR\<close>, and returns
  with both frames of the pool unpinned.
\<close>

theorem HeapFile_ctor_p1_failure_clean_witness:
  "Inv (BufMgr_init 2 blank broken_db)
   \<and> (\<exists>h w'. HeapFile_ctor_p1 (demoP blank) ''t'' raw_members (BufMgr_init 2 blank broken_db)
                = Some (UNIXERR, h, w')
        \<and> UNIXERR \<noteq> OK
        \<and> filePtr h = None \<and> headerPage h = None \<and> curPage h = None
        \<and> map pinCnt (bufTable w') = [0, 0]
        \<and> HeapFile_dtor_p1 (demoP blank) h w' = Some (h, w'))"
proof -
  let ?w = "BufMgr_init 2 blank broken_db"
  have i: "Inv ?w" by (rule Inv_init)
  have "map_option (\<lambda>(st, h, w'). st) (HeapFile_ctor_p1 (demoP blank) ''t'' raw_members ?w)
          = Some UNIXERR"
    by code_simp
  then obtain h w' where c: "HeapFile_ctor_p1 (demoP blank) ''t'' raw_members ?w = Some (UNIXERR, h, w')"
    by (cases "HeapFile_ctor_p1 (demoP blank) ''t'' raw_members ?w") auto
  have n: "UNIXERR \<noteq> OK" by simp
  have p: "map pinCnt (bufTable ?w) = [0, 0]" by code_simp
  from HeapFile_ctor_p1_failure_clean[OF i c n] p i c show ?thesis by auto
qed

section \<open>Claims about scans: the end of the file\<close>














section \<open>Marking and resetting a scan\<close>

text \<open>
  \<open>scanNext\<close> of either variant never writes the mark and never touches the header
  pointer, and when it returns \<open>OK\<close> the scan has a current page.
\<close>

lemma scanNext_loop_marks:
  "scanNext_loop P G n h w = Returns (st, r, h', w') \<Longrightarrow>
     markedPageNo h' = markedPageNo h \<and> markedRec h' = markedRec h \<and>
     headerPage h' = headerPage h \<and> (st = OK \<longrightarrow> curPage h' \<noteq> None)"
proof (induction n arbitrary: h w)
  case 0
  then show ?case by simp
next
  case (Suc n)
  show ?case
    using Suc.prems
    by (auto simp: frame_page_def split: option.splits prod.splits if_splits bool.splits
        dest!: Suc.IH)
qed

lemma scanNext_marks:
  "scanNext P G n h w = Returns (st, r, h', w') \<Longrightarrow>
     markedPageNo h' = markedPageNo h \<and> markedRec h' = markedRec h \<and>
     headerPage h' = headerPage h \<and> (st = OK \<longrightarrow> curPage h' \<noteq> None)"
  by (auto simp: scanNext_def split: option.splits prod.splits if_splits dest!: scanNext_loop_marks)

lemma scan_calls_marks:
  "scan_calls P G ns h w = Some (rs, h', w') \<Longrightarrow>
     markedPageNo h' = markedPageNo h \<and> markedRec h' = markedRec h \<and>
     headerPage h' = headerPage h \<and> (if ns = [] then h' = h else curPage h' \<noteq> None)"
proof (induction ns arbitrary: h w rs)
  case Nil
  then show ?case by simp
next
  case (Cons n ns)
  from Cons.prems obtain rid h1 w1 rs1 where
    s: "scanNext P G n h w = Returns (OK, Some rid, h1, w1)"
    and c: "scan_calls P G ns h1 w1 = Some (rs1, h', w')"
    by (auto split: outcome.splits prod.splits option.splits Status.splits)
  from scanNext_marks[OF s] Cons.IH[OF c] show ?case
    by (auto split: if_splits)
qed

lemma scanNext_loop_p1_marks:
  "scanNext_loop_p1 P G n h w = Returns (st, r, h', w') \<Longrightarrow>
     markedPageNo h' = markedPageNo h \<and> markedRec h' = markedRec h \<and>
     headerPage h' = headerPage h \<and> (st = OK \<longrightarrow> curPage h' \<noteq> None)"
proof (induction n arbitrary: h w)
  case 0
  then show ?case by simp
next
  case (Suc n)
  show ?case
    using Suc.prems
    by (auto simp: frame_page_def split: option.splits prod.splits if_splits bool.splits
        dest!: Suc.IH)
qed

lemma scanNext_p1_marks:
  "scanNext_p1 P G n h w = Returns (st, r, h', w') \<Longrightarrow>
     markedPageNo h' = markedPageNo h \<and> markedRec h' = markedRec h \<and>
     headerPage h' = headerPage h \<and> (st = OK \<longrightarrow> curPage h' \<noteq> None)"
  by (auto simp: scanNext_p1_def split: option.splits prod.splits if_splits
      dest!: scanNext_loop_p1_marks)

lemma scan_calls_p1_marks:
  "scan_calls_p1 P G ns h w = Some (rs, h', w') \<Longrightarrow>
     markedPageNo h' = markedPageNo h \<and> markedRec h' = markedRec h \<and>
     headerPage h' = headerPage h \<and> (if ns = [] then h' = h else curPage h' \<noteq> None)"
proof (induction ns arbitrary: h w rs)
  case Nil
  then show ?case by simp
next
  case (Cons n ns)
  from Cons.prems obtain rid h1 w1 rs1 where
    s: "scanNext_p1 P G n h w = Returns (OK, Some rid, h1, w1)"
    and c: "scan_calls_p1 P G ns h1 w1 = Some (rs1, h', w')"
    by (auto split: outcome.splits prod.splits option.splits Status.splits)
  from scanNext_p1_marks[OF s] Cons.IH[OF c] show ?case
    by (auto split: if_splits)
qed

text \<open>A successful reset, read off the code of either variant.\<close>

lemma resetScan_moves:
  assumes "resetScan P h w = Some (OK, h', w')" and "markedPageNo h \<noteq> curPageNo h"
    and "curPage h \<noteq> None"
  shows "\<exists>w1 fr. unPinPage (filePtr h) (curPageNo h) (curDirtyFlag h) w = Some (OK, w1) \<and>
           readPage P (filePtr h) (markedPageNo h) w1 = Some (OK, Some fr, w') \<and>
           h' = h\<lparr>curPage := Some fr, curPageNo := markedPageNo h, curDirtyFlag := False,
                  curRec := markedRec h\<rparr>"
  using assms
  by (auto simp: resetScan_def Let_def split: option.splits prod.splits if_splits
      dest: readPage_status)

lemma resetScan_stays:
  assumes "resetScan P h w = Some (OK, h', w')" and "markedPageNo h = curPageNo h"
  shows "h' = h\<lparr>curRec := markedRec h\<rparr> \<and> w' = w"
  using assms by (auto simp: resetScan_def)

lemma resetScan_p1_moves:
  assumes "resetScan_p1 P h w = Some (OK, h', w')" and "markedPageNo h \<noteq> curPageNo h"
    and "curPage h \<noteq> None"
  shows "\<exists>w1 fr. unPinPage (filePtr h) (curPageNo h) (curDirtyFlag h) w = Some (OK, w1) \<and>
           readPage P (filePtr h) (markedPageNo h) w1 = Some (OK, Some fr, w') \<and>
           h' = h\<lparr>curPage := Some fr, curPageNo := markedPageNo h, curDirtyFlag := False,
                  curRec := markedRec h\<rparr>"
  using assms
  by (auto simp: resetScan_p1_def Let_def split: option.splits prod.splits if_splits
      dest: readPage_status)

lemma resetScan_p1_stays:
  assumes "resetScan_p1 P h w = Some (OK, h', w')" and "markedPageNo h = curPageNo h"
    and "curPage h \<noteq> None"
  shows "h' = h\<lparr>curRec := markedRec h\<rparr> \<and> w' = w"
  using assms by (auto simp: resetScan_p1_def split: if_splits)

text \<open>
  The first iteration of \<open>scanNext\<close> on a pinned page, when the page has a record after
  the current one and that record matches.
\<close>

lemma scanNext_next_on_page:
  assumes "curPage h = Some fr" and "fr < length (bufPool w)" and "on_record h"
    and "pg_nextRecord G (dat (bufPool w ! fr)) (curRec h) = (OK, rid)"
    and "pg_getRecord G (dat (bufPool w ! fr)) rid = (OK, rec)"
    and "matchRec G (h\<lparr>curRec := rid\<rparr>) rec = Some True"
  shows "scanNext P G (Suc n) h w = Returns (OK, Some rid, h\<lparr>curRec := rid\<rparr>, w)"
  using assms
  by (auto simp: scanNext_def frame_page_def next_in_page_def on_record_def NULLRID_def)

lemma scanNext_p1_next_on_page:
  assumes "headerPage h \<noteq> None"
    and "curPage h = Some fr" and "fr < length (bufPool w)" and "on_record h"
    and "pg_nextRecord G (dat (bufPool w ! fr)) (curRec h) = (OK, rid)"
    and "pg_getRecord G (dat (bufPool w ! fr)) rid = (OK, rec)"
    and "matchRec G (h\<lparr>curRec := rid\<rparr>) rec = Some True"
  shows "scanNext_p1 P G (Suc n) h w = Returns (OK, Some rid, h\<lparr>curRec := rid\<rparr>, w)"
  using assms
  by (auto simp: scanNext_p1_def frame_page_def next_in_page_p1_def on_record_def)

text \<open>The round trip for one variant, with the variant's functions as hypotheses.\<close>

lemma round_trip_stage4:
  assumes m: "markScan h0 = (OK, hm)"
    and c: "scan_calls P G ns hm w0 = Some (rs, h, w)"
    and r: "resetScan P h w = Some (OK, h', w')"
  shows "reset_restores P h0 h w h' w'"
    and "\<lbrakk>on_record h0; curPage h' = Some fr; fr < length (bufPool w');
          pg_nextRecord G (dat (bufPool w' ! fr)) (curRec h0) = (OK, rid);
          pg_getRecord G (dat (bufPool w' ! fr)) rid = (OK, rec);
          matchRec G (h'\<lparr>curRec := rid\<rparr>) rec = Some True\<rbrakk>
         \<Longrightarrow> scanNext P G (Suc n) h' w' = Returns (OK, Some rid, h'\<lparr>curRec := rid\<rparr>, w')"
proof -
  from m have hm: "hm = h0\<lparr>markedPageNo := curPageNo h0, markedRec := curRec h0\<rparr>"
    by (simp add: markScan_def)
  from scan_calls_marks[OF c] hm
  have k: "markedPageNo h = curPageNo h0" "markedRec h = curRec h0"
    and e: "ns = [] \<Longrightarrow> h = hm" and p: "ns \<noteq> [] \<Longrightarrow> curPage h \<noteq> None"
    by (auto split: if_splits)
  show a: "reset_restores P h0 h w h' w'"
  proof (cases "curPageNo h = curPageNo h0")
    case True
    with resetScan_stays[OF r] k show ?thesis
      by (simp add: reset_restores_def)
  next
    case False
    with e hm have "ns \<noteq> []" by auto
    with p have "curPage h \<noteq> None" by simp
    with resetScan_moves[OF r] k False show ?thesis
      by (auto simp: reset_restores_def)
  qed
  assume "on_record h0" "curPage h' = Some fr" "fr < length (bufPool w')"
    "pg_nextRecord G (dat (bufPool w' ! fr)) (curRec h0) = (OK, rid)"
    "pg_getRecord G (dat (bufPool w' ! fr)) rid = (OK, rec)"
    "matchRec G (h'\<lparr>curRec := rid\<rparr>) rec = Some True"
  moreover from a have "curPageNo h' = curPageNo h0" "curRec h' = curRec h0"
    by (simp_all add: reset_restores_def)
  ultimately show "scanNext P G (Suc n) h' w' = Returns (OK, Some rid, h'\<lparr>curRec := rid\<rparr>, w')"
    by (intro scanNext_next_on_page[where rec = rec]) (simp_all add: on_record_def)
qed

lemma round_trip_part_001:
  assumes m: "markScan_p1 h0 = (OK, hm)"
    and c: "scan_calls_p1 P G ns hm w0 = Some (rs, h, w)"
    and r: "resetScan_p1 P h w = Some (OK, h', w')"
  shows "reset_restores P h0 h w h' w'"
    and "\<lbrakk>on_record h0; headerPage h0 \<noteq> None; curPage h' = Some fr; fr < length (bufPool w');
          pg_nextRecord G (dat (bufPool w' ! fr)) (curRec h0) = (OK, rid);
          pg_getRecord G (dat (bufPool w' ! fr)) rid = (OK, rec);
          matchRec G (h'\<lparr>curRec := rid\<rparr>) rec = Some True\<rbrakk>
         \<Longrightarrow> scanNext_p1 P G (Suc n) h' w' = Returns (OK, Some rid, h'\<lparr>curRec := rid\<rparr>, w')"
proof -
  from m have hm: "hm = h0\<lparr>markedPageNo := curPageNo h0, markedRec := curRec h0\<rparr>"
    and h0: "curPage h0 \<noteq> None"
    by (auto simp: markScan_p1_def split: if_splits)
  from scan_calls_p1_marks[OF c] hm
  have k: "markedPageNo h = curPageNo h0" "markedRec h = curRec h0" "headerPage h = headerPage h0"
    and e: "ns = [] \<Longrightarrow> h = hm" and p: "ns \<noteq> [] \<Longrightarrow> curPage h \<noteq> None"
    by (auto split: if_splits)
  from e p hm h0 have cp: "curPage h \<noteq> None"
    by (cases "ns = []") auto
  have hp: "headerPage h' = headerPage h0"
  proof (cases "curPageNo h = curPageNo h0")
    case True
    with resetScan_p1_stays[OF r] k cp show ?thesis by simp
  next
    case False
    with resetScan_p1_moves[OF r] k cp show ?thesis by auto
  qed
  show a: "reset_restores P h0 h w h' w'"
  proof (cases "curPageNo h = curPageNo h0")
    case True
    with resetScan_p1_stays[OF r] k cp show ?thesis
      by (simp add: reset_restores_def)
  next
    case False
    with resetScan_p1_moves[OF r] k cp show ?thesis
      by (auto simp: reset_restores_def)
  qed
  assume "on_record h0" "headerPage h0 \<noteq> None" "curPage h' = Some fr" "fr < length (bufPool w')"
    "pg_nextRecord G (dat (bufPool w' ! fr)) (curRec h0) = (OK, rid)"
    "pg_getRecord G (dat (bufPool w' ! fr)) rid = (OK, rec)"
    "matchRec G (h'\<lparr>curRec := rid\<rparr>) rec = Some True"
  moreover from a have "curPageNo h' = curPageNo h0" "curRec h' = curRec h0"
    by (simp_all add: reset_restores_def)
  ultimately show "scanNext_p1 P G (Suc n) h' w' = Returns (OK, Some rid, h'\<lparr>curRec := rid\<rparr>, w')"
    using hp by (intro scanNext_p1_next_on_page[where rec = rec]) (simp_all add: on_record_def)
qed

end
